theory Spec2Isabelle
  imports Complex_Main
begin

section \<open>Course timetabling: schedule entries, the conflict objective and the two engines\<close>

text \<open>
  A shallow embedding of the timetabling engines: the schedule entry of
  \<^verbatim>\<open>jadwal_model.py\<close>, the genetic algorithm of \<^verbatim>\<open>genetic_algorithm.py\<close> and the tabu
  search of \<^verbatim>\<open>tabu_search.py\<close>.

  Conventions of the embedding.
  \<^item> Python integers are \<open>int\<close>; Python floats (fitness values, rates, thresholds) are
    \<open>real\<close>. The product under \<^verbatim>\<open>int()\<close> in the elite count, where the rounding of the
    float product decides the integer, is rounded to the nearest double (\<open>float_round\<close>);
    the other products and quotients are exact here and rounded in the program.
  \<^item> A raised exception is the value \<open>Inl e\<close> of a sum type.
  \<^item> Schedule entries are mutable objects. An entry is an address into a heap (a list of
    entry values, the address being the index); a solution is a list of addresses.
  \<^item> The calls of the \<^verbatim>\<open>random\<close> module read an oracle, an infinite sequence of
    natural numbers that is passed along; each draw consumes one number. Theorems hold
    for every oracle.
\<close>

subsection \<open>Exceptions\<close>

datatype py_error =
    ValidationError      \<comment> \<open>\<^verbatim>\<open>ValueError\<close> raised by \<^verbatim>\<open>AlgoritmaGenetika.validate_data\<close>\<close>
  | JadwalValueError     \<comment> \<open>\<^verbatim>\<open>ValueError\<close> raised by \<^verbatim>\<open>Jadwal.__post_init__\<close>\<close>
  | SampleValueError     \<comment> \<open>\<^verbatim>\<open>ValueError\<close> of \<^verbatim>\<open>random.sample\<close>: sample larger than population\<close>
  | RandrangeValueError  \<comment> \<open>\<^verbatim>\<open>ValueError\<close> of \<^verbatim>\<open>random.randint\<close>: empty range\<close>
  | MinValueError        \<comment> \<open>\<^verbatim>\<open>ValueError\<close> of \<^verbatim>\<open>min\<close> on an empty sequence\<close>
  | IndexError           \<comment> \<open>\<^verbatim>\<open>random.choice\<close> on an empty sequence, list index out of range\<close>
  | KeyError
  | AttributeError
  | ZeroDivisionError

subsection \<open>The data model (\<^verbatim>\<open>jadwal_model.py\<close>)\<close>

datatype Hari = SENIN | SELASA | RABU | KAMIS | JUMAT

datatype Kelas = PAGI | MALAM

fun Hari_value :: "Hari \<Rightarrow> string" where
  "Hari_value SENIN = ''Senin''"
| "Hari_value SELASA = ''Selasa''"
| "Hari_value RABU = ''Rabu''"
| "Hari_value KAMIS = ''Kamis''"
| "Hari_value JUMAT = ''Jumat''"

fun Kelas_value :: "Kelas \<Rightarrow> string" where
  "Kelas_value PAGI = ''pagi''"
| "Kelas_value MALAM = ''malam''"

text \<open>The class \<^verbatim>\<open>Matakuliah\<close>, and a course record of the catalog (a dictionary with the
  keys \<^verbatim>\<open>kode\<close>, \<^verbatim>\<open>nama\<close>, \<^verbatim>\<open>sks\<close>, \<^verbatim>\<open>dosen\<close>).\<close>

record Matakuliah =
  kode :: string
  nama :: string
  sks :: int

record course =
  c_kode :: string
  c_nama :: string
  c_sks :: int
  c_dosen :: "string list"

text \<open>
  The annotations of the dataclass \<^verbatim>\<open>Jadwal\<close> (\<^verbatim>\<open>hari: Hari\<close>, \<^verbatim>\<open>matakuliah: Matakuliah\<close>,
  \<^verbatim>\<open>kelas: Kelas\<close>) are not enforced at run time, and the solution generator stores a
  plain string for the day and the class label and the course dictionary for the course.
  Each of the three fields therefore holds either kind of value.
\<close>

datatype hari_val = HariEnum Hari | HariStr string

datatype kelas_val = KelasEnum Kelas | KelasStr string

datatype matkul_val = MatkulObj Matakuliah | MatkulDict course

record jadwal =
  hari :: hari_val
  waktu_mulai :: int
  waktu_selesai :: int
  matakuliah :: matkul_val
  dosen :: string
  ruang :: string
  kelas :: kelas_val
  semester :: int

definition validate_time :: "jadwal \<Rightarrow> py_error + unit" where
  "validate_time j =
     (if waktu_mulai j \<ge> waktu_selesai j then Inl JadwalValueError
      else if waktu_mulai j < 0 \<or> waktu_selesai j > 24 * 60 then Inl JadwalValueError
      else Inr ())"

definition validate_semester :: "jadwal \<Rightarrow> py_error + unit" where
  "validate_semester j =
     (if semester j \<notin> set [2, 4, 6] then Inl JadwalValueError else Inr ())"

text \<open>The constructor \<^verbatim>\<open>Jadwal(...)\<close>: the fields, then \<^verbatim>\<open>__post_init__\<close>.\<close>

definition new_jadwal ::
  "hari_val \<Rightarrow> int \<Rightarrow> int \<Rightarrow> matkul_val \<Rightarrow> string \<Rightarrow> string \<Rightarrow> kelas_val \<Rightarrow> int
     \<Rightarrow> py_error + jadwal" where
  "new_jadwal h m s mk d r k sem =
     (let j = \<lparr>hari = h, waktu_mulai = m, waktu_selesai = s, matakuliah = mk,
               dosen = d, ruang = r, kelas = k, semester = sem\<rparr>
      in case validate_time j of
           Inl e \<Rightarrow> Inl e
         | Inr _ \<Rightarrow> (case validate_semester j of Inl e \<Rightarrow> Inl e | Inr _ \<Rightarrow> Inr j))"

definition overlaps :: "jadwal \<Rightarrow> jadwal \<Rightarrow> bool" where
  "overlaps self other =
     (if hari self \<noteq> hari other \<or> ruang self \<noteq> ruang other then False
      else waktu_mulai self < waktu_selesai other \<and> waktu_mulai other < waktu_selesai self)"

text \<open>\<^verbatim>\<open>Jadwal.to_dict\<close>. The entries of the dictionary are evaluated in order, so the
  first attribute access that fails decides: \<^verbatim>\<open>self.hari.value\<close> on a string,
  \<^verbatim>\<open>self.matakuliah.kode\<close> on a dictionary, \<^verbatim>\<open>self.kelas.value\<close> on a string.\<close>

record jadwal_dict =
  d_hari :: string
  d_waktu_mulai :: int
  d_waktu_selesai :: int
  d_matakuliah :: Matakuliah
  d_dosen :: string
  d_ruang :: string
  d_kelas :: string
  d_semester :: int

definition to_dict :: "jadwal \<Rightarrow> py_error + jadwal_dict" where
  "to_dict self =
     (case hari self of
        HariStr _ \<Rightarrow> Inl AttributeError
      | HariEnum h \<Rightarrow>
         (case matakuliah self of
            MatkulDict _ \<Rightarrow> Inl AttributeError
          | MatkulObj mk \<Rightarrow>
             (case kelas self of
                KelasStr _ \<Rightarrow> Inl AttributeError
              | KelasEnum k \<Rightarrow>
                  Inr \<lparr>d_hari = Hari_value h, d_waktu_mulai = waktu_mulai self,
                       d_waktu_selesai = waktu_selesai self,
                       d_matakuliah = \<lparr>kode = kode mk, nama = nama mk, sks = sks mk\<rparr>,
                       d_dosen = dosen self, d_ruang = ruang self,
                       d_kelas = Kelas_value k, d_semester = semester self\<rparr>)))"

subsection \<open>The conflict objective (\<^verbatim>\<open>AlgoritmaGenetika.calculate_fitness\<close>)\<close>

text \<open>The body of the inner loop: what one pair \<open>(i, j)\<close> adds to \<^verbatim>\<open>conflicts\<close>.\<close>

definition pair_conflicts :: "jadwal \<Rightarrow> jadwal \<Rightarrow> nat" where
  "pair_conflicts jadwal_i jadwal_j =
     (if hari jadwal_i = hari jadwal_j then
        (if ruang jadwal_i = ruang jadwal_j
         then (if overlaps jadwal_i jadwal_j then 1 else 0) else 0)
        + (if dosen jadwal_i = dosen jadwal_j
           then (if overlaps jadwal_i jadwal_j then 1 else 0) else 0)
        + (if kelas jadwal_i = kelas jadwal_j
           then (if semester jadwal_i = semester jadwal_j
                 then (if overlaps jadwal_i jadwal_j then 1 else 0) else 0) else 0)
      else 0)"

text \<open>The two nested \<^verbatim>\<open>for\<close> loops over \<^verbatim>\<open>range(len(individu))\<close> and
  \<^verbatim>\<open>range(i + 1, len(individu))\<close>, with the counter as the accumulator.\<close>

definition inner_loop :: "jadwal list \<Rightarrow> nat \<Rightarrow> nat \<Rightarrow> nat" where
  "inner_loop individu i conflicts =
     fold (\<lambda>j c. c + pair_conflicts (individu ! i) (individu ! j))
          [i + 1 ..< length individu] conflicts"

definition count_conflicts :: "jadwal list \<Rightarrow> nat" where
  "count_conflicts individu =
     fold (\<lambda>i c. inner_loop individu i c) [0 ..< length individu] 0"

definition calculate_fitness :: "jadwal list \<Rightarrow> real" where
  "calculate_fitness individu = 1 / (1 + real (count_conflicts individu))"


subsection \<open>The \<^verbatim>\<open>random\<close> module as an oracle\<close>

text \<open>
  Every call reads the head of the oracle and returns its tail with the result.
  \<^verbatim>\<open>random.random()\<close> yields a multiple of \<open>2\<^sup>-\<^sup>5\<^sup>3\<close> in \<open>[0, 1)\<close>; \<^verbatim>\<open>random.choice\<close>
  and \<^verbatim>\<open>random.randint\<close> reduce the number to the range asked for, so every outcome of
  the call is the result for some oracle; \<^verbatim>\<open>random.sample\<close> draws without replacement.
\<close>

type_synonym rng = "nat \<Rightarrow> nat"

definition draw_head :: "rng \<Rightarrow> nat" where
  "draw_head g = g 0"

definition draw_tail :: "rng \<Rightarrow> rng" where
  "draw_tail g = (\<lambda>n. g (Suc n))"

definition random_random :: "rng \<Rightarrow> real \<times> rng" where
  "random_random g = (real (draw_head g mod 2 ^ 53) / 2 ^ 53, draw_tail g)"

definition random_choice :: "'a list \<Rightarrow> rng \<Rightarrow> py_error + ('a \<times> rng)" where
  "random_choice xs g =
     (if xs = [] then Inl IndexError else Inr (xs ! (draw_head g mod length xs), draw_tail g))"

definition random_randint :: "int \<Rightarrow> int \<Rightarrow> rng \<Rightarrow> py_error + (int \<times> rng)" where
  "random_randint a b g =
     (if b < a then Inl RandrangeValueError
      else Inr (a + int (draw_head g mod nat (b - a + 1)), draw_tail g))"

fun sample_from :: "'a list \<Rightarrow> nat \<Rightarrow> rng \<Rightarrow> 'a list \<times> rng" where
  "sample_from xs 0 g = ([], g)"
| "sample_from xs (Suc k) g =
     (let i = draw_head g mod length xs;
          (rest, g') = sample_from (take i xs @ drop (Suc i) xs) k (draw_tail g)
      in (xs ! i # rest, g'))"

definition random_sample :: "'a list \<Rightarrow> nat \<Rightarrow> rng \<Rightarrow> py_error + ('a list \<times> rng)" where
  "random_sample population k g =
     (if length population < k then Inl SampleValueError
      else Inr (sample_from population k g))"

subsection \<open>Python built-ins used by the engines\<close>

text \<open>\<^verbatim>\<open>int(x)\<close> on a float truncates towards zero.\<close>

definition py_int :: "real \<Rightarrow> int" where
  "py_int x = (if 0 \<le> x then \<lfloor>x\<rfloor> else \<lceil>x\<rceil>)"

text \<open>\<^verbatim>\<open>round(x)\<close> on a float: to the nearest integer, a tie going to the even one.\<close>

definition py_round :: "real \<Rightarrow> int" where
  "py_round x =
     (let f = \<lfloor>x\<rfloor>; d = x - of_int f
      in if d < 1 / 2 then f else if 1 / 2 < d then f + 1 else if even f then f else f + 1)"

text \<open>
  A Python float is an IEEE 754 double. \<open>float_round x\<close> is the double nearest to the real
  \<open>x\<close>, a tie going to the even significand: for \<open>2\<^sup>e \<le> |x| < 2\<^sup>e\<^sup>+\<^sup>1\<close> the doubles are the
  multiples of \<open>2\<^sup>e\<^sup>-\<^sup>5\<^sup>2\<close>, and below \<open>2\<^sup>-\<^sup>1\<^sup>0\<^sup>2\<^sup>2\<close> the multiples of \<open>2\<^sup>-\<^sup>1\<^sup>0\<^sup>7\<^sup>4\<close>. \<open>binade\<close>
  finds \<open>e\<close> by halving or doubling. The conversion of an \<^verbatim>\<open>int\<close> to a float, the reading
  of a decimal literal and the product of two floats all round this way; magnitudes from
  \<open>2\<^sup>1\<^sup>0\<^sup>2\<^sup>4\<close> on, which a float does not hold, are outside this model.
\<close>

function halvings :: "real \<Rightarrow> nat" where
  "halvings x = (if x < 2 then 0 else Suc (halvings (x / 2)))"
  by pat_completeness auto
termination
proof (relation "measure (\<lambda>x. nat \<lfloor>x\<rfloor>)")
  show "wf (measure (\<lambda>x. nat \<lfloor>x :: real\<rfloor>))" by simp
next
  fix x :: real
  assume "\<not> x < 2"
  then have x: "2 \<le> x" by simp
  then have "x / 2 \<le> x - 1" by simp
  then have "\<lfloor>x / 2\<rfloor> \<le> \<lfloor>x - 1\<rfloor>" by (rule floor_mono)
  also have "\<dots> = \<lfloor>x\<rfloor> - 1" by simp
  finally have "\<lfloor>x / 2\<rfloor> < \<lfloor>x\<rfloor>" by simp
  moreover from x have "0 < \<lfloor>x\<rfloor>" by simp
  ultimately show "(x / 2, x) \<in> measure (\<lambda>x. nat \<lfloor>x\<rfloor>)" by simp
qed

function doublings :: "real \<Rightarrow> nat" where
  "doublings x = (if x \<le> 0 \<or> 1 \<le> x then 0 else Suc (doublings (2 * x)))"
  by pat_completeness auto
termination
proof (relation "measure (\<lambda>x. nat \<lceil>1 / x\<rceil>)")
  show "wf (measure (\<lambda>x. nat \<lceil>1 / x :: real\<rceil>))" by simp
next
  fix x :: real
  assume "\<not> (x \<le> 0 \<or> 1 \<le> x)"
  then have x: "0 < x" "x < 1" by simp_all
  define y where "y = 1 / x"
  from x have y: "1 < y" by (simp add: y_def)
  have half: "1 / (2 * x) = y / 2" by (simp add: y_def)
  have "y / 2 \<le> of_int (\<lceil>y\<rceil> - 1)"
  proof (cases "y \<le> 2")
    case True
    from y have "1 < \<lceil>y\<rceil>" by (simp add: less_ceiling_iff)
    then have "(2::real) \<le> of_int \<lceil>y\<rceil>" by linarith
    with True have "y / 2 \<le> of_int \<lceil>y\<rceil> - 1" by linarith
    then show ?thesis by simp
  next
    case False
    then have "y / 2 \<le> y - 1" by simp
    also have "\<dots> \<le> of_int \<lceil>y\<rceil> - 1" by simp
    finally show ?thesis by simp
  qed
  then have "\<lceil>y / 2\<rceil> \<le> \<lceil>y\<rceil> - 1" by (simp only: ceiling_le_iff)
  moreover from y have "0 < \<lceil>y\<rceil>" by simp
  ultimately show "(2 * x, x) \<in> measure (\<lambda>x. nat \<lceil>1 / x\<rceil>)"
    by (simp add: half y_def [symmetric])
qed

declare halvings.simps [simp del] doublings.simps [simp del]

definition binade :: "real \<Rightarrow> int" where
  "binade a = (if 1 \<le> a then int (halvings a) else - int (doublings a))"

definition pow2 :: "int \<Rightarrow> real" where
  "pow2 e = (if 0 \<le> e then 2 ^ nat e else 1 / 2 ^ nat (- e))"

definition float_round :: "real \<Rightarrow> real" where
  "float_round x =
     (if x = 0 then 0
      else (let a = \<bar>x\<bar>; q = pow2 (max (binade a) (- 1022) - 52)
            in sgn x * of_int (py_round (a / q)) * q))"

text \<open>\<^verbatim>\<open>n * x\<close> for an \<^verbatim>\<open>int\<close> \<open>n\<close> and a float \<open>x\<close>: \<open>n\<close> is converted to a float and the
  product is rounded. A parameter given as a real number stands for the float nearest to
  it.\<close>

definition int_times_float :: "nat \<Rightarrow> real \<Rightarrow> real" where
  "int_times_float n x = float_round (float_round (real n) * float_round x)"

text \<open>\<^verbatim>\<open>min(xs, key=f)\<close>: the first element whose key is minimal; \<^verbatim>\<open>ValueError\<close> on an
  empty sequence.\<close>

definition py_min_key :: "('a \<Rightarrow> real) \<Rightarrow> 'a list \<Rightarrow> py_error + 'a" where
  "py_min_key f xs =
     (case xs of
        [] \<Rightarrow> Inl MinValueError
      | x # rest \<Rightarrow> Inr (fold (\<lambda>y best. if f y < f best then y else best) rest x))"

text \<open>\<^verbatim>\<open>str(n)\<close> for a non-negative integer.\<close>

fun str_nat :: "nat \<Rightarrow> string" where
  "str_nat n =
     (if n < 10 then [char_of (48 + n)]
      else str_nat (n div 10) @ [char_of (48 + n mod 10)])"

declare str_nat.simps [simp del]

subsection \<open>The genetic engine (\<^verbatim>\<open>genetic_algorithm.py\<close>): construction\<close>

text \<open>
  The catalog \<^verbatim>\<open>data\<close>. A semester bucket may be missing from the dictionary; the course
  records are taken with their four fields present, \<^verbatim>\<open>sks\<close> an integer and \<^verbatim>\<open>dosen\<close> a
  list of strings, so of the checks of \<^verbatim>\<open>validate_data\<close> the two that remain are the
  presence of the bucket and \<^verbatim>\<open>sks > 0\<close>.
\<close>

record catalog =
  semester_2 :: "course list option"
  semester_4 :: "course list option"
  semester_6 :: "course list option"
  ruang_kuliah :: "string list"
  kelas_pagi :: "string list"
  kelas_malam :: "string list"

record ga_params =
  data :: catalog
  ukuran_populasi :: nat
  generasi :: nat
  crossover_rate :: real
  mutation_rate :: real
  elitism_rate :: real

fun validate_courses :: "course list \<Rightarrow> py_error + unit" where
  "validate_courses [] = Inr ()"
| "validate_courses (c # cs) =
     (if c_sks c \<le> 0 then Inl ValidationError else validate_courses cs)"

fun validate_semesters :: "course list option list \<Rightarrow> py_error + unit" where
  "validate_semesters [] = Inr ()"
| "validate_semesters (None # _) = Inl ValidationError"
| "validate_semesters (Some cs # rest) =
     (case validate_courses cs of Inl e \<Rightarrow> Inl e | Inr _ \<Rightarrow> validate_semesters rest)"

definition validate_data :: "catalog \<Rightarrow> py_error + unit" where
  "validate_data d = validate_semesters [semester_2 d, semester_4 d, semester_6 d]"

text \<open>\<^verbatim>\<open>AlgoritmaGenetika.__init__\<close>: store the parameters, then validate the catalog.\<close>

definition init_ga ::
  "catalog \<Rightarrow> nat \<Rightarrow> nat \<Rightarrow> real \<Rightarrow> real \<Rightarrow> real \<Rightarrow> py_error + ga_params" where
  "init_ga d pop gen cr mr er =
     (case validate_data d of
        Inl e \<Rightarrow> Inl e
      | Inr _ \<Rightarrow> Inr \<lparr>data = d, ukuran_populasi = pop, generasi = gen,
                      crossover_rate = cr, mutation_rate = mr, elitism_rate = er\<rparr>)"

text \<open>
  What a run changes: the heap of schedule entries, the oracle, the best solution and
  its fitness (\<open>None\<close> is \<^verbatim>\<open>float('inf')\<close>), and the \<^verbatim>\<open>metrics\<close> dictionary.
\<close>

record ga_state =
  heap :: "jadwal list"
  rng :: rng
  best_fitness :: "real option"
  best_solution :: "nat list option"
  m_generations :: "nat list"
  m_best_fitness :: "real list"
  m_average_fitness :: "real list"
  m_diversity :: "real list"
  crossover_count :: nat
  mutation_count :: nat

definition init_state :: "rng \<Rightarrow> ga_state" where
  "init_state g =
     \<lparr>heap = [], rng = g, best_fitness = None, best_solution = None,
      m_generations = [], m_best_fitness = [], m_average_fitness = [], m_diversity = [],
      crossover_count = 0, mutation_count = 0\<rparr>"

text \<open>The values of a solution's entries, and the fitness of a solution on the heap.\<close>

definition deref :: "jadwal list \<Rightarrow> nat list \<Rightarrow> jadwal list" where
  "deref h individu = map (\<lambda>a. h ! a) individu"

definition fitness_on :: "jadwal list \<Rightarrow> nat list \<Rightarrow> real" where
  "fitness_on h individu = calculate_fitness (deref h individu)"

subsection \<open>The solution generator (\<^verbatim>\<open>generate_random_jadwal\<close>)\<close>

definition time_slots :: "(int \<times> int) list" where
  "time_slots = [(8 * 60, 10 * 60), (10 * 60, 12 * 60), (13 * 60, 15 * 60),
                 (15 * 60, 17 * 60), (17 * 60, 19 * 60)]"

definition day_names :: "string list" where
  "day_names = [''Senin'', ''Selasa'', ''Rabu'', ''Kamis'', ''Jumat'']"

definition room_names :: "string list" where
  "room_names = [''301'', ''305'', ''306'', ''307'', ''314'', ''C204'', ''C302'', ''C407'',
                 ''C507'', ''C604'', ''C701'', ''C801'', ''C504'', ''C606'', ''C702'']"

text \<open>\<^verbatim>\<open>self.data[semester]\<close>, a \<^verbatim>\<open>KeyError\<close> when the bucket is missing.\<close>

definition bucket :: "course list option \<Rightarrow> py_error + course list" where
  "bucket b = (case b of None \<Rightarrow> Inl KeyError | Some cs \<Rightarrow> Inr cs)"

definition all_courses :: "catalog \<Rightarrow> py_error + course list" where
  "all_courses d =
     (case bucket (semester_2 d) of Inl e \<Rightarrow> Inl e | Inr c2 \<Rightarrow>
     (case bucket (semester_4 d) of Inl e \<Rightarrow> Inl e | Inr c4 \<Rightarrow>
     (case bucket (semester_6 d) of Inl e \<Rightarrow> Inl e | Inr c6 \<Rightarrow> Inr (c2 @ c4 @ c6))))"

text \<open>
  One pass of the loop over \<^verbatim>\<open>all_courses\<close>: five draws in the order of the source
  (time slot, day, room, instructor, class label), then the constructor, then the
  append. The variable \<^verbatim>\<open>semester\<close> read by \<^verbatim>\<open>int(semester.split("_")[-1])\<close> is the loop
  variable of the loop that gathered the courses, which has ended: it is
  \<^verbatim>\<open>'semester_6'\<close> for every course.
\<close>

definition generate_entry :: "course \<Rightarrow> rng \<Rightarrow> py_error + (jadwal \<times> rng)" where
  "generate_entry c g0 =
     (case random_choice time_slots g0 of Inl e \<Rightarrow> Inl e | Inr (waktu, g1) \<Rightarrow>
     (case random_choice day_names g1 of Inl e \<Rightarrow> Inl e | Inr (h, g2) \<Rightarrow>
     (case random_choice room_names g2 of Inl e \<Rightarrow> Inl e | Inr (r, g3) \<Rightarrow>
     (case random_choice (c_dosen c) g3 of Inl e \<Rightarrow> Inl e | Inr (d, g4) \<Rightarrow>
     (case random_randint 1 15 g4 of Inl e \<Rightarrow> Inl e | Inr (k, g5) \<Rightarrow>
     (case new_jadwal (HariStr h) (fst waktu) (snd waktu) (MatkulDict c) d r
             (KelasStr (str_nat (nat k))) 6 of
        Inl e \<Rightarrow> Inl e
      | Inr j \<Rightarrow> Inr (j, g5)))))))"

fun generate_entries ::
  "course list \<Rightarrow> nat list \<Rightarrow> ga_state \<Rightarrow> py_error + (nat list \<times> ga_state)" where
  "generate_entries [] jadwal_acc st = Inr (jadwal_acc, st)"
| "generate_entries (c # cs) jadwal_acc st =
     (case generate_entry c (rng st) of
        Inl e \<Rightarrow> Inl e
      | Inr (j, g) \<Rightarrow>
          generate_entries cs (jadwal_acc @ [length (heap st)])
            (st\<lparr>heap := heap st @ [j], rng := g\<rparr>))"

definition generate_random_jadwal ::
  "ga_params \<Rightarrow> ga_state \<Rightarrow> py_error + (nat list \<times> ga_state)" where
  "generate_random_jadwal P st =
     (case all_courses (data P) of
        Inl e \<Rightarrow> Inl e
      | Inr cs \<Rightarrow> generate_entries cs [] st)"


subsection \<open>Selection, crossover and mutation\<close>

text \<open>\<^verbatim>\<open>tournament_selection\<close>, with the default \<^verbatim>\<open>tournament_size = 5\<close> that every call
  of the engine uses.\<close>

definition tournament_size :: nat where
  "tournament_size = 5"

definition tournament_selection ::
  "nat list list \<Rightarrow> ga_state \<Rightarrow> py_error + (nat list \<times> ga_state)" where
  "tournament_selection populasi st =
     (case random_sample populasi tournament_size (rng st) of
        Inl e \<Rightarrow> Inl e
      | Inr (selected, g) \<Rightarrow>
         (case py_min_key (fitness_on (heap st)) selected of
            Inl e \<Rightarrow> Inl e
          | Inr best \<Rightarrow> Inr (best, st\<lparr>rng := g\<rparr>)))"

text \<open>\<^verbatim>\<open>crossover\<close>. The slices \<^verbatim>\<open>p[:point]\<close> and \<^verbatim>\<open>p[point:]\<close> are \<open>take\<close> and \<open>drop\<close>,
  since \<^verbatim>\<open>point\<close> is at least 1 when \<^verbatim>\<open>randint\<close> returns.\<close>

definition crossover ::
  "ga_params \<Rightarrow> 'a list \<Rightarrow> 'a list \<Rightarrow> ga_state
     \<Rightarrow> py_error + (('a list \<times> 'a list) \<times> ga_state)" where
  "crossover P parent1 parent2 st =
     (let (u, g1) = random_random (rng st) in
      if u > crossover_rate P then Inr ((parent1, parent2), st\<lparr>rng := g1\<rparr>)
      else
        (case random_randint 1 (int (length parent1) - 1) g1 of
           Inl e \<Rightarrow> Inl e
         | Inr (point, g2) \<Rightarrow>
            (let child1 = take (nat point) parent1 @ drop (nat point) parent2;
                 child2 = take (nat point) parent2 @ drop (nat point) parent1
             in Inr ((child1, child2),
                     st\<lparr>rng := g2, crossover_count := crossover_count st + 1\<rparr>))))"

text \<open>
  \<^verbatim>\<open>mutate\<close>. \<^verbatim>\<open>individu.copy()\<close> is a new list of the same entries, so \<^verbatim>\<open>mutated[i]\<close> is
  the entry \<^verbatim>\<open>individu[i]\<close> and the assignments to its attributes update the heap at that
  address. \<open>mutate_entry\<close> is one pass of the loop, for the entry at address \<open>a\<close>.
\<close>

definition mutate_entry :: "ga_params \<Rightarrow> nat \<Rightarrow> ga_state \<Rightarrow> py_error + ga_state" where
  "mutate_entry P a st =
     (let (u, g1) = random_random (rng st) in
      if u < mutation_rate P then
        (let (v, g2) = random_random g1 in
         if v < 0.33 then
           (case random_choice time_slots g2 of
              Inl e \<Rightarrow> Inl e
            | Inr (waktu, g3) \<Rightarrow>
                Inr (st\<lparr>heap := (heap st)[a := (heap st ! a)
                                   \<lparr>waktu_mulai := fst waktu, waktu_selesai := snd waktu\<rparr>],
                        rng := g3, mutation_count := mutation_count st + 1\<rparr>))
         else
           (let (w, g3) = random_random g2 in
            if w < 0.33 then
              (case random_choice day_names g3 of
                 Inl e \<Rightarrow> Inl e
               | Inr (h, g4) \<Rightarrow>
                   Inr (st\<lparr>heap := (heap st)[a := (heap st ! a)\<lparr>hari := HariStr h\<rparr>],
                           rng := g4, mutation_count := mutation_count st + 1\<rparr>))
            else
              (case random_choice room_names g3 of
                 Inl e \<Rightarrow> Inl e
               | Inr (r, g4) \<Rightarrow>
                   Inr (st\<lparr>heap := (heap st)[a := (heap st ! a)\<lparr>ruang := r\<rparr>],
                           rng := g4, mutation_count := mutation_count st + 1\<rparr>))))
      else Inr (st\<lparr>rng := g1\<rparr>))"

fun mutate_loop :: "ga_params \<Rightarrow> nat list \<Rightarrow> ga_state \<Rightarrow> py_error + ga_state" where
  "mutate_loop P [] st = Inr st"
| "mutate_loop P (a # as) st =
     (case mutate_entry P a st of Inl e \<Rightarrow> Inl e | Inr st' \<Rightarrow> mutate_loop P as st')"

definition mutate ::
  "ga_params \<Rightarrow> nat list \<Rightarrow> ga_state \<Rightarrow> py_error + (nat list \<times> ga_state)" where
  "mutate P individu st =
     (let mutated = individu in
      case mutate_loop P mutated st of
        Inl e \<Rightarrow> Inl e
      | Inr st' \<Rightarrow> Inr (mutated, st'))"

subsection \<open>The diversity metric (\<^verbatim>\<open>calculate_diversity\<close>)\<close>

definition index_pairs :: "nat \<Rightarrow> (nat \<times> nat) list" where
  "index_pairs n = concat (map (\<lambda>i. map (\<lambda>j. (i, j)) [i + 1 ..< n]) [0 ..< n])"

text \<open>Summation of a loop whose body may raise.\<close>

fun sum_err :: "('a \<Rightarrow> py_error + nat) \<Rightarrow> 'a list \<Rightarrow> nat \<Rightarrow> py_error + nat" where
  "sum_err f [] acc = Inr acc"
| "sum_err f (x # xs) acc =
     (case f x of Inl e \<Rightarrow> Inl e | Inr v \<Rightarrow> sum_err f xs (acc + v))"

text \<open>The condition of the generator expression at position \<open>k\<close>:
  \<^verbatim>\<open>populasi[i][k].to_dict() != populasi[j][k].to_dict()\<close>, evaluated left to right.\<close>

definition differs_at :: "jadwal list \<Rightarrow> nat list \<Rightarrow> nat list \<Rightarrow> nat \<Rightarrow> py_error + nat" where
  "differs_at h ind_i ind_j k =
     (case to_dict (h ! (ind_i ! k)) of
        Inl e \<Rightarrow> Inl e
      | Inr di \<Rightarrow>
          if length ind_j \<le> k then Inl IndexError
          else (case to_dict (h ! (ind_j ! k)) of
                  Inl e \<Rightarrow> Inl e
                | Inr dj \<Rightarrow> Inr (if di \<noteq> dj then 1 else 0)))"

definition diff_count :: "jadwal list \<Rightarrow> nat list \<Rightarrow> nat list \<Rightarrow> py_error + nat" where
  "diff_count h ind_i ind_j = sum_err (differs_at h ind_i ind_j) [0 ..< length ind_i] 0"

definition calculate_diversity :: "jadwal list \<Rightarrow> nat list list \<Rightarrow> py_error + real" where
  "calculate_diversity h populasi =
     (if length populasi < 2 then Inr 0
      else
        (case sum_err (\<lambda>(i, j). diff_count h (populasi ! i) (populasi ! j))
                (index_pairs (length populasi)) 0 of
           Inl e \<Rightarrow> Inl e
         | Inr diversity \<Rightarrow>
             if length populasi * (length populasi - 1) * length (populasi ! 0) = 0
             then Inl ZeroDivisionError
             else Inr (real diversity
                       / real (length populasi * (length populasi - 1)
                               * length (populasi ! 0)))))"


subsection \<open>The generation loop (\<^verbatim>\<open>AlgoritmaGenetika.run\<close>)\<close>

text \<open>The statistics of a generation. The logging calls that follow in the source
  evaluate the same three expressions again and are left out.\<close>

definition record_stats ::
  "nat \<Rightarrow> nat list list \<Rightarrow> ga_state \<Rightarrow> py_error + ga_state" where
  "record_stats gen populasi st =
     (let fitness_scores = map (fitness_on (heap st)) populasi in
      case py_min_key (\<lambda>x. x) fitness_scores of
        Inl e \<Rightarrow> Inl e
      | Inr lowest \<Rightarrow>
          if length fitness_scores = 0 then Inl ZeroDivisionError
          else (case calculate_diversity (heap st) populasi of
                  Inl e \<Rightarrow> Inl e
                | Inr dv \<Rightarrow>
                    Inr (st\<lparr>m_generations := m_generations st @ [gen],
                            m_best_fitness := m_best_fitness st @ [lowest],
                            m_average_fitness := m_average_fitness st
                              @ [sum_list fitness_scores / real (length fitness_scores)],
                            m_diversity := m_diversity st @ [dv]\<rparr>)))"

text \<open>\<^verbatim>\<open>num_elites = max(2, int(self.ukuran_populasi * self.elitism_rate))\<close>, the product
  being the float product of an \<^verbatim>\<open>int\<close> and a float, and \<^verbatim>\<open>elites\<close>; \<^verbatim>\<open>sorted\<close> is stable
  and ascending, as \<open>sort_key\<close> is.\<close>

definition num_elites :: "ga_params \<Rightarrow> int" where
  "num_elites P = max 2 (py_int (int_times_float (ukuran_populasi P) (elitism_rate P)))"

definition select_elites :: "ga_params \<Rightarrow> jadwal list \<Rightarrow> nat list list \<Rightarrow> nat list list" where
  "select_elites P h populasi =
     take (nat (num_elites P)) (sort_key (fitness_on h) populasi)"

text \<open>
  The \<^verbatim>\<open>while\<close> loop that fills \<^verbatim>\<open>new_populasi\<close>. When the first child fills the
  population the inner \<^verbatim>\<open>for\<close> loop breaks and the \<^verbatim>\<open>while\<close> condition ends the loop;
  otherwise the second child is appended as well.
\<close>

function breed ::
  "ga_params \<Rightarrow> nat list list \<Rightarrow> nat list list \<Rightarrow> ga_state
     \<Rightarrow> py_error + (nat list list \<times> ga_state)" where
  "breed P populasi new_populasi st =
     (if length new_populasi < ukuran_populasi P then
        (case tournament_selection populasi st of
           Inl e \<Rightarrow> Inl e
         | Inr (parent1, st1) \<Rightarrow>
        (case tournament_selection populasi st1 of
           Inl e \<Rightarrow> Inl e
         | Inr (parent2, st2) \<Rightarrow>
        (case crossover P parent1 parent2 st2 of
           Inl e \<Rightarrow> Inl e
         | Inr (children, st3) \<Rightarrow>
        (case mutate P (fst children) st3 of
           Inl e \<Rightarrow> Inl e
         | Inr (new_child1, st4) \<Rightarrow>
             if length (new_populasi @ [new_child1]) \<ge> ukuran_populasi P
             then breed P populasi (new_populasi @ [new_child1]) st4
             else
               (case mutate P (snd children) st4 of
                  Inl e \<Rightarrow> Inl e
                | Inr (new_child2, st5) \<Rightarrow>
                    breed P populasi (new_populasi @ [new_child1] @ [new_child2]) st5)))))
      else Inr (new_populasi, st))"
  by pat_completeness auto
termination
  by (relation "measure (\<lambda>(P, populasi, new_populasi, st).
                   ukuran_populasi P - length new_populasi)") auto

declare breed.simps [simp del]

text \<open>The update of the best solution, and the stop test \<^verbatim>\<open>self.best_fitness <= 0\<close>.\<close>

definition update_best :: "nat list list \<Rightarrow> ga_state \<Rightarrow> py_error + ga_state" where
  "update_best populasi st =
     (case py_min_key (fitness_on (heap st)) populasi of
        Inl e \<Rightarrow> Inl e
      | Inr current_best \<Rightarrow>
         (let current_fitness = fitness_on (heap st) current_best in
          if (case best_fitness st of None \<Rightarrow> True | Some b \<Rightarrow> current_fitness < b)
          then Inr (st\<lparr>best_fitness := Some current_fitness,
                       best_solution := Some current_best\<rparr>)
          else Inr st))"

definition stop_condition :: "ga_state \<Rightarrow> bool" where
  "stop_condition st = (case best_fitness st of None \<Rightarrow> False | Some b \<Rightarrow> b \<le> 0)"

text \<open>One pass of the loop over the generations, up to the stop test.\<close>

definition generation ::
  "ga_params \<Rightarrow> nat \<Rightarrow> nat list list \<Rightarrow> ga_state
     \<Rightarrow> py_error + (nat list list \<times> ga_state)" where
  "generation P gen populasi st =
     (case record_stats gen populasi st of
        Inl e \<Rightarrow> Inl e
      | Inr st1 \<Rightarrow>
         (let elites = select_elites P (heap st1) populasi in
          case breed P populasi elites st1 of
            Inl e \<Rightarrow> Inl e
          | Inr (new_populasi, st2) \<Rightarrow>
             (let populasi' = take (ukuran_populasi P) new_populasi in
              case update_best populasi' st2 of
                Inl e \<Rightarrow> Inl e
              | Inr st3 \<Rightarrow> Inr (populasi', st3))))"

fun run_loop ::
  "ga_params \<Rightarrow> nat list \<Rightarrow> nat list list \<Rightarrow> ga_state \<Rightarrow> py_error + ga_state" where
  "run_loop P [] populasi st = Inr st"
| "run_loop P (gen # gens) populasi st =
     (case generation P gen populasi st of
        Inl e \<Rightarrow> Inl e
      | Inr (populasi', st') \<Rightarrow>
          if stop_condition st' then Inr st' else run_loop P gens populasi' st')"

text \<open>The initial population: \<^verbatim>\<open>ukuran_populasi\<close> calls of the generator.\<close>

fun init_population ::
  "ga_params \<Rightarrow> nat \<Rightarrow> ga_state \<Rightarrow> py_error + (nat list list \<times> ga_state)" where
  "init_population P 0 st = Inr ([], st)"
| "init_population P (Suc n) st =
     (case generate_random_jadwal P st of
        Inl e \<Rightarrow> Inl e
      | Inr (ind, st1) \<Rightarrow>
         (case init_population P n st1 of
            Inl e \<Rightarrow> Inl e
          | Inr (rest, st2) \<Rightarrow> Inr (ind # rest, st2)))"

text \<open>\<^verbatim>\<open>run\<close>: the result is the final state, which holds \<^verbatim>\<open>best_solution\<close>,
  \<^verbatim>\<open>best_fitness\<close> and the metrics.\<close>

definition run :: "ga_params \<Rightarrow> ga_state \<Rightarrow> py_error + ga_state" where
  "run P st =
     (case init_population P (ukuran_populasi P) st of
        Inl e \<Rightarrow> Inl e
      | Inr (populasi, st1) \<Rightarrow> run_loop P [0 ..< generasi P] populasi st1)"


subsection \<open>The tabu engine (\<^verbatim>\<open>tabu_search.py\<close>): state\<close>

text \<open>
  A tabu move is a tuple of two solutions and is looked up with \<^verbatim>\<open>in\<close>, which compares
  list objects: by identity first, then element by element. Solutions are therefore
  list objects here, with an identity: \<open>lists\<close> holds the contents of every list object
  made so far, the identity being the index, and a list's contents are the addresses of
  its entries in \<open>ents\<close>. The objective is a function of the entries' values.
\<close>

record ts_params =
  objective :: "jadwal list \<Rightarrow> real"
  max_iter :: nat
  tabu_size :: nat
  aspiration_threshold :: real
  diversification_threshold :: real
  intensification_threshold :: real

record ts_state =
  ents :: "jadwal list"
  lists :: "nat list list"
  ts_rng :: rng
  current_solution :: nat
  ts_best_solution :: nat
  ts_best_fitness :: real
  tabu_list :: "(nat \<times> nat) list"
  m_iterations :: "nat list"
  ts_m_best_fitness :: "real list"
  m_current_fitness :: "real list"
  m_tabu_size :: "nat list"
  diversification_count :: nat
  intensification_count :: nat

text \<open>The objective applied to the list object \<open>sid\<close>.\<close>

definition objective_on :: "ts_params \<Rightarrow> ts_state \<Rightarrow> nat \<Rightarrow> real" where
  "objective_on P st sid = objective P (deref (ents st) (lists st ! sid))"

text \<open>\<^verbatim>\<open>TabuSearch.__init__\<close> for an initial solution whose entries are the heap \<open>h\<close> and
  whose list is \<open>initial\<close>; the list becomes list object 0.\<close>

definition init_ts :: "ts_params \<Rightarrow> jadwal list \<Rightarrow> nat list \<Rightarrow> rng \<Rightarrow> ts_state" where
  "init_ts P h initial g =
     \<lparr>ents = h, lists = [initial], ts_rng = g, current_solution = 0,
      ts_best_solution = 0, ts_best_fitness = objective P (deref h initial),
      tabu_list = [], m_iterations = [], ts_m_best_fitness = [], m_current_fitness = [],
      m_tabu_size = [], diversification_count = 0, intensification_count = 0\<rparr>"

subsection \<open>Equality of moves\<close>

text \<open>\<^verbatim>\<open>Matakuliah.__eq__\<close> compares the codes; dictionaries compare by content; an
  object and a dictionary are unequal.\<close>

fun matkul_eq :: "matkul_val \<Rightarrow> matkul_val \<Rightarrow> bool" where
  "matkul_eq (MatkulObj a) (MatkulObj b) = (kode a = kode b)"
| "matkul_eq (MatkulDict c) (MatkulDict d) = (c = d)"
| "matkul_eq _ _ = False"

text \<open>The \<^verbatim>\<open>__eq__\<close> that \<^verbatim>\<open>@dataclass\<close> generates for \<^verbatim>\<open>Jadwal\<close>: the tuples of fields.\<close>

definition jadwal_eq :: "jadwal \<Rightarrow> jadwal \<Rightarrow> bool" where
  "jadwal_eq a b \<longleftrightarrow>
     hari a = hari b \<and> waktu_mulai a = waktu_mulai b \<and> waktu_selesai a = waktu_selesai b
     \<and> matkul_eq (matakuliah a) (matakuliah b) \<and> dosen a = dosen b \<and> ruang a = ruang b
     \<and> kelas a = kelas b \<and> semester a = semester b"

definition entry_eq :: "jadwal list \<Rightarrow> nat \<Rightarrow> nat \<Rightarrow> bool" where
  "entry_eq h a b \<longleftrightarrow> a = b \<or> jadwal_eq (h ! a) (h ! b)"

definition solution_eq :: "ts_state \<Rightarrow> nat \<Rightarrow> nat \<Rightarrow> bool" where
  "solution_eq st s t \<longleftrightarrow>
     s = t \<or> list_all2 (entry_eq (ents st)) (lists st ! s) (lists st ! t)"

definition move_eq :: "ts_state \<Rightarrow> nat \<times> nat \<Rightarrow> nat \<times> nat \<Rightarrow> bool" where
  "move_eq st m m' \<longleftrightarrow> solution_eq st (fst m) (fst m') \<and> solution_eq st (snd m) (snd m')"

text \<open>\<^verbatim>\<open>move in self.tabu_list\<close>.\<close>

definition move_in_tabu :: "ts_state \<Rightarrow> nat \<times> nat \<Rightarrow> bool" where
  "move_in_tabu st move = list_ex (move_eq st move) (tabu_list st)"

subsection \<open>The neighbourhood (\<^verbatim>\<open>get_neighbors\<close>)\<close>

text \<open>\<^verbatim>\<open>solution.copy()\<close>: a new list object with the same entries.\<close>

definition copy_list :: "nat \<Rightarrow> ts_state \<Rightarrow> nat \<times> ts_state" where
  "copy_list sid st = (length (lists st), st\<lparr>lists := lists st @ [lists st ! sid]\<rparr>)"

text \<open>The tuple assignments: the right-hand side is read first, then the two targets
  are assigned from left to right.\<close>

definition swap_ruang :: "jadwal list \<Rightarrow> nat \<Rightarrow> nat \<Rightarrow> jadwal list" where
  "swap_ruang h a b =
     (let ra = ruang (h ! a); rb = ruang (h ! b);
          h1 = h[a := (h ! a)\<lparr>ruang := rb\<rparr>]
      in h1[b := (h1 ! b)\<lparr>ruang := ra\<rparr>])"

definition swap_waktu :: "jadwal list \<Rightarrow> nat \<Rightarrow> nat \<Rightarrow> jadwal list" where
  "swap_waktu h a b =
     (let ma = waktu_mulai (h ! a); mb = waktu_mulai (h ! b);
          h1 = h[a := (h ! a)\<lparr>waktu_mulai := mb\<rparr>];
          h2 = h1[b := (h1 ! b)\<lparr>waktu_mulai := ma\<rparr>];
          sa = waktu_selesai (h2 ! a); sb = waktu_selesai (h2 ! b);
          h3 = h2[a := (h2 ! a)\<lparr>waktu_selesai := sb\<rparr>]
      in h3[b := (h3 ! b)\<lparr>waktu_selesai := sa\<rparr>])"

definition swap_dosen :: "jadwal list \<Rightarrow> nat \<Rightarrow> nat \<Rightarrow> jadwal list" where
  "swap_dosen h a b =
     (let da = dosen (h ! a); db = dosen (h ! b);
          h1 = h[a := (h ! a)\<lparr>dosen := db\<rparr>]
      in h1[b := (h1 ! b)\<lparr>dosen := da\<rparr>])"

text \<open>The body of the two nested loops for the positions \<open>i < j\<close>: three copies, each
  followed by a swap on the entries at positions \<open>i\<close> and \<open>j\<close> of the copy.\<close>

definition swap_neighbors :: "nat \<Rightarrow> nat \<times> nat \<Rightarrow> ts_state \<Rightarrow> nat list \<times> ts_state" where
  "swap_neighbors solution ij st =
     (let i = fst ij; j = snd ij;
          (n1, st1) = copy_list solution st;
          st2 = st1\<lparr>ents := swap_ruang (ents st1) (lists st1 ! n1 ! i) (lists st1 ! n1 ! j)\<rparr>;
          (n2, st3) = copy_list solution st2;
          st4 = st3\<lparr>ents := swap_waktu (ents st3) (lists st3 ! n2 ! i) (lists st3 ! n2 ! j)\<rparr>;
          (n3, st5) = copy_list solution st4;
          st6 = st5\<lparr>ents := swap_dosen (ents st5) (lists st5 ! n3 ! i) (lists st5 ! n3 ! j)\<rparr>
      in ([n1, n2, n3], st6))"

fun swap_loop :: "nat \<Rightarrow> (nat \<times> nat) list \<Rightarrow> nat list \<Rightarrow> ts_state \<Rightarrow> nat list \<times> ts_state" where
  "swap_loop solution [] neighbors st = (neighbors, st)"
| "swap_loop solution (ij # rest) neighbors st =
     (let (new, st') = swap_neighbors solution ij st
      in swap_loop solution rest (neighbors @ new) st')"

text \<open>The body of the second loop: a copy, a draw of \<^verbatim>\<open>time_diff\<close>, and the clamped
  shift of both times of the entry at position \<open>i\<close>.\<close>

definition jitter_neighbor :: "nat \<Rightarrow> nat \<Rightarrow> ts_state \<Rightarrow> py_error + (nat \<times> ts_state)" where
  "jitter_neighbor solution i st =
     (let (n, st1) = copy_list solution st in
      case random_randint (- 30) 30 (ts_rng st1) of
        Inl e \<Rightarrow> Inl e
      | Inr (time_diff, g) \<Rightarrow>
         (let a = lists st1 ! n ! i;
              h = ents st1;
              h1 = h[a := (h ! a)\<lparr>waktu_mulai :=
                             max 0 (min (24 * 60) (waktu_mulai (h ! a) + time_diff))\<rparr>];
              h2 = h1[a := (h1 ! a)\<lparr>waktu_selesai :=
                             max 0 (min (24 * 60) (waktu_selesai (h1 ! a) + time_diff))\<rparr>]
          in Inr (n, st1\<lparr>ents := h2, ts_rng := g\<rparr>)))"

fun jitter_loop ::
  "nat \<Rightarrow> nat list \<Rightarrow> nat list \<Rightarrow> ts_state \<Rightarrow> py_error + (nat list \<times> ts_state)" where
  "jitter_loop solution [] neighbors st = Inr (neighbors, st)"
| "jitter_loop solution (i # rest) neighbors st =
     (case jitter_neighbor solution i st of
        Inl e \<Rightarrow> Inl e
      | Inr (n, st') \<Rightarrow> jitter_loop solution rest (neighbors @ [n]) st')"

definition get_neighbors :: "nat \<Rightarrow> ts_state \<Rightarrow> py_error + (nat list \<times> ts_state)" where
  "get_neighbors solution st =
     (let len = length (lists st ! solution);
          (neighbors, st1) = swap_loop solution (index_pairs len) [] st
      in jitter_loop solution [0 ..< len] neighbors st1)"


subsection \<open>The search loop (\<^verbatim>\<open>TabuSearch.search\<close>)\<close>

definition aspiration_criteria :: "ts_params \<Rightarrow> ts_state \<Rightarrow> real \<Rightarrow> bool" where
  "aspiration_criteria P st fitness \<longleftrightarrow>
     fitness < ts_best_fitness st * (1 - aspiration_threshold P)"

definition intensification :: "ts_params \<Rightarrow> ts_state \<Rightarrow> nat \<Rightarrow> bool" where
  "intensification P st solution \<longleftrightarrow>
     objective_on P st solution < ts_best_fitness st * (1 - intensification_threshold P)"

definition update_tabu_list :: "ts_params \<Rightarrow> nat \<times> nat \<Rightarrow> ts_state \<Rightarrow> ts_state" where
  "update_tabu_list P move st =
     (let appended = tabu_list st @ [move]
      in st\<lparr>tabu_list := (if length appended > tabu_size P then tl appended else appended)\<rparr>)"

text \<open>
  The loop over the neighbours. \<^verbatim>\<open>best_neighbor\<close> and the local \<^verbatim>\<open>best_fitness\<close> are
  always assigned together, so they are one optional pair: \<open>None\<close> stands for
  \<^verbatim>\<open>best_neighbor = None\<close> with \<^verbatim>\<open>best_fitness = float('inf')\<close>. A neighbour that meets the
  aspiration criterion ends the loop (\<^verbatim>\<open>break\<close>).
\<close>

definition below :: "real \<Rightarrow> (nat \<times> real) option \<Rightarrow> bool" where
  "below fitness best = (case best of None \<Rightarrow> True | Some (_, f) \<Rightarrow> fitness < f)"

fun scan_neighbors ::
  "ts_params \<Rightarrow> ts_state \<Rightarrow> nat list \<Rightarrow> (nat \<times> real) option \<Rightarrow> (nat \<times> real) option" where
  "scan_neighbors P st [] best = best"
| "scan_neighbors P st (neighbor # rest) best =
     (let fitness = objective_on P st neighbor;
          move = (current_solution st, neighbor);
          best1 = (if \<not> move_in_tabu st move
                   then (if below fitness best then Some (neighbor, fitness) else best)
                   else best)
      in if aspiration_criteria P st fitness then Some (neighbor, fitness)
         else scan_neighbors P st rest best1)"

text \<open>The choice of the accepted neighbour: the result of the scan, or, when the scan
  found none, a neighbour drawn at random (diversification). The flag tells which.\<close>

definition accept_neighbor ::
  "ts_params \<Rightarrow> ts_state \<Rightarrow> nat list \<Rightarrow> py_error + ((nat \<times> real) \<times> bool \<times> ts_state)" where
  "accept_neighbor P st neighbors =
     (case scan_neighbors P st neighbors None of
        Some best \<Rightarrow> Inr (best, False, st)
      | None \<Rightarrow>
         (case random_choice neighbors (ts_rng st) of
            Inl e \<Rightarrow> Inl e
          | Inr (best_neighbor, g) \<Rightarrow>
              Inr ((best_neighbor, objective_on P st best_neighbor), True,
                   st\<lparr>ts_rng := g, diversification_count := diversification_count st + 1\<rparr>)))"

text \<open>The update of the best solution with the intensification counter.\<close>

definition update_best_ts :: "ts_params \<Rightarrow> nat \<times> real \<Rightarrow> ts_state \<Rightarrow> ts_state" where
  "update_best_ts P best st =
     (if snd best < ts_best_fitness st then
        (let st1 = st\<lparr>ts_best_solution := fst best, ts_best_fitness := snd best\<rparr>
         in if intensification P st1 (fst best)
            then st1\<lparr>intensification_count := intensification_count st1 + 1\<rparr>
            else st1)
      else st)"

text \<open>The two statements that end the step, in the order of the source: the assignment
  to \<^verbatim>\<open>self.current_solution\<close>, then the call of \<^verbatim>\<open>update_tabu_list\<close> with the tuple
  \<^verbatim>\<open>(self.current_solution, best_neighbor)\<close>.\<close>

definition move_to :: "ts_params \<Rightarrow> nat \<Rightarrow> ts_state \<Rightarrow> ts_state" where
  "move_to P best_neighbor st =
     (let st1 = st\<lparr>current_solution := best_neighbor\<rparr>
      in update_tabu_list P (current_solution st1, best_neighbor) st1)"

definition record_iteration :: "nat \<Rightarrow> real \<Rightarrow> ts_state \<Rightarrow> ts_state" where
  "record_iteration iteration fitness st =
     st\<lparr>m_iterations := m_iterations st @ [iteration],
        ts_m_best_fitness := ts_m_best_fitness st @ [ts_best_fitness st],
        m_current_fitness := m_current_fitness st @ [fitness],
        m_tabu_size := m_tabu_size st @ [length (tabu_list st)]\<rparr>"

definition search_iteration :: "ts_params \<Rightarrow> nat \<Rightarrow> ts_state \<Rightarrow> py_error + ts_state" where
  "search_iteration P iteration st =
     (case get_neighbors (current_solution st) st of
        Inl e \<Rightarrow> Inl e
      | Inr (neighbors, st1) \<Rightarrow>
         (case accept_neighbor P st1 neighbors of
            Inl e \<Rightarrow> Inl e
          | Inr (best, diversified, st2) \<Rightarrow>
              Inr (record_iteration iteration (snd best)
                     (move_to P (fst best) (update_best_ts P best st2)))))"

definition ts_stop_condition :: "ts_state \<Rightarrow> bool" where
  "ts_stop_condition st \<longleftrightarrow> ts_best_fitness st \<le> 0"

fun search_loop :: "ts_params \<Rightarrow> nat list \<Rightarrow> ts_state \<Rightarrow> py_error + ts_state" where
  "search_loop P [] st = Inr st"
| "search_loop P (iteration # rest) st =
     (case search_iteration P iteration st of
        Inl e \<Rightarrow> Inl e
      | Inr st' \<Rightarrow> if ts_stop_condition st' then Inr st' else search_loop P rest st')"

definition search :: "ts_params \<Rightarrow> ts_state \<Rightarrow> py_error + ts_state" where
  "search P st = search_loop P [0 ..< max_iter P] st"


section \<open>Definitions used to state the properties\<close>

subsection \<open>Counting conflicts by pairs\<close>

text \<open>What the three tests of \<open>pair_conflicts\<close> add for one pair, in closed form: nothing
  unless the entries overlap (same day, same room, intersecting time windows), and
  otherwise one for the room, one more for a shared instructor and one more for a shared
  class label with a shared semester.\<close>

definition pair_weight :: "jadwal \<Rightarrow> jadwal \<Rightarrow> nat" where
  "pair_weight a b =
     (if overlaps a b
      then 1 + (if dosen a = dosen b then 1 else 0)
             + (if kelas a = kelas b \<and> semester a = semester b then 1 else 0)
      else 0)"

text \<open>The number of unordered pairs of positions whose entries overlap.\<close>

definition overlap_count :: "jadwal list \<Rightarrow> nat" where
  "overlap_count S =
     length (filter (\<lambda>(i, j). overlaps (S ! i) (S ! j)) (index_pairs (length S)))"

text \<open>The conflict rule in the words of the specification: two entries conflict when
  they share the day, their time windows intersect, and they share the room, or the
  instructor, or the class label together with the semester. The conflict count of the
  specification is the number of unordered pairs that conflict.\<close>

definition spec_conflict :: "jadwal \<Rightarrow> jadwal \<Rightarrow> bool" where
  "spec_conflict a b \<longleftrightarrow>
     hari a = hari b
     \<and> (waktu_mulai a < waktu_selesai b \<and> waktu_mulai b < waktu_selesai a)
     \<and> (ruang a = ruang b \<or> dosen a = dosen b
          \<or> (kelas a = kelas b \<and> semester a = semester b))"

definition spec_conflict_count :: "jadwal list \<Rightarrow> nat" where
  "spec_conflict_count S =
     length (filter (\<lambda>(i, j). spec_conflict (S ! i) (S ! j)) (index_pairs (length S)))"

subsection \<open>Example inputs\<close>

text \<open>A course and entries as the solution generator makes them: the day and the class
  label are strings, the course is the catalog's dictionary, the semester is 6.\<close>

definition ex_course :: course where
  "ex_course = \<lparr>c_kode = ''K1'', c_nama = ''N1'', c_sks = 2, c_dosen = [''A'']\<rparr>"

definition ex_entry ::
  "string \<Rightarrow> int \<Rightarrow> int \<Rightarrow> string \<Rightarrow> string \<Rightarrow> string \<Rightarrow> jadwal" where
  "ex_entry h m s d r k =
     \<lparr>hari = HariStr h, waktu_mulai = m, waktu_selesai = s,
      matakuliah = MatkulDict ex_course, dosen = d, ruang = r, kelas = KelasStr k,
      semester = 6\<rparr>"

text \<open>Two entries on Monday 08:00--10:00 in room 301 with the same instructor, and two
  that differ from them only in the room of the second.\<close>

definition ex_same_room :: "jadwal list" where
  "ex_same_room = [ex_entry ''Senin'' 480 600 ''A'' ''301'' ''1'',
                   ex_entry ''Senin'' 480 600 ''A'' ''301'' ''2'']"

definition ex_other_room :: "jadwal list" where
  "ex_other_room = [ex_entry ''Senin'' 480 600 ''A'' ''301'' ''1'',
                    ex_entry ''Senin'' 480 600 ''A'' ''305'' ''2'']"

text \<open>Two entries at the same time in the same room with the same instructor and class
  label, on different days.\<close>

definition ex_other_day :: "jadwal list" where
  "ex_other_day = [ex_entry ''Senin'' 480 600 ''A'' ''301'' ''1'',
                   ex_entry ''Selasa'' 480 600 ''A'' ''301'' ''1'']"

subsection \<open>The elite count in the words of the specification\<close>

text \<open>The specification gives the number of elites carried into the next generation as
  \<open>max(2, round(elitism_rate \<times> population_size))\<close>, whatever the size of the population.\<close>

definition spec_num_elites :: "ga_params \<Rightarrow> int" where
  "spec_num_elites P = max 2 (py_round (int_times_float (ukuran_populasi P) (elitism_rate P)))"

subsection \<open>Example inputs for the genetic engine\<close>

text \<open>A catalog with one course, engine parameters over it, and the oracle whose draws
  are all 0.\<close>

definition ex_catalog :: catalog where
  "ex_catalog =
     \<lparr>semester_2 = Some [ex_course], semester_4 = Some [], semester_6 = Some [],
      ruang_kuliah = [''R1''], kelas_pagi = [''1''], kelas_malam = [''2'']\<rparr>"

definition ex_ga :: "nat \<Rightarrow> nat \<Rightarrow> real \<Rightarrow> real \<Rightarrow> real \<Rightarrow> ga_params" where
  "ex_ga pop gen cr mr er =
     \<lparr>data = ex_catalog, ukuran_populasi = pop, generasi = gen,
      crossover_rate = cr, mutation_rate = mr, elitism_rate = er\<rparr>"

definition zeros :: rng where
  "zeros = (\<lambda>_. 0)"

text \<open>Entries whose day, course and class label have the annotated types, and a heap of
  four of them: the entries 0 and 1 overlap, the entries 2 and 3 do not.\<close>

definition ex_enum_entry :: "Hari \<Rightarrow> int \<Rightarrow> int \<Rightarrow> string \<Rightarrow> string \<Rightarrow> jadwal" where
  "ex_enum_entry h m s d r =
     \<lparr>hari = HariEnum h, waktu_mulai = m, waktu_selesai = s,
      matakuliah = MatkulObj \<lparr>kode = ''K1'', nama = ''N1'', sks = 2\<rparr>, dosen = d, ruang = r,
      kelas = KelasEnum PAGI, semester = 2\<rparr>"

definition ex_heap4 :: "jadwal list" where
  "ex_heap4 =
     [ex_enum_entry SENIN 480 600 ''A'' ''301'', ex_enum_entry SENIN 480 600 ''B'' ''301'',
      ex_enum_entry SENIN 480 600 ''A'' ''301'', ex_enum_entry SELASA 480 600 ''B'' ''301'']"

text \<open>The oracle whose draws are all \<open>2\<^sup>5\<^sup>2\<close>: \<^verbatim>\<open>random.random()\<close> is then \<open>1/2\<close>, and a
  choice among the 15 rooms is the second room.\<close>

definition halves :: rng where
  "halves = (\<lambda>_. 2 ^ 52)"

text \<open>States of the engine: after one call of the generator under \<open>zeros\<close>, and after the
  first generation of a run with a population of one that follows it; before and after a
  mutation of the room of entry 0 under \<open>halves\<close>; and with the heap \<open>ex_heap4\<close>.\<close>

definition ex_generated :: ga_state where
  "ex_generated =
     (init_state zeros)\<lparr>heap := [ex_entry ''Senin'' 480 600 ''A'' ''301'' ''1'']\<rparr>"

definition ex_first_generation :: ga_state where
  "ex_first_generation =
     ex_generated\<lparr>best_solution := Some [0], best_fitness := Some 1,
                  m_generations := [0], m_best_fitness := [1], m_average_fitness := [1],
                  m_diversity := [0]\<rparr>"

definition ex_before_mutation :: ga_state where
  "ex_before_mutation =
     (init_state halves)\<lparr>heap := [ex_entry ''Senin'' 480 600 ''A'' ''301'' ''1'']\<rparr>"

definition ex_after_mutation :: ga_state where
  "ex_after_mutation =
     (init_state halves)\<lparr>heap := [ex_entry ''Senin'' 480 600 ''A'' ''305'' ''1''],
                          mutation_count := 1\<rparr>"

definition ex_population :: ga_state where
  "ex_population = (init_state zeros)\<lparr>heap := ex_heap4\<rparr>"

subsection \<open>Invariants of the genetic engine's operators\<close>

text \<open>Every address of a solution is on the heap and its entry has a room of the fixed
  list.\<close>

definition rooms_ok :: "jadwal list \<Rightarrow> nat list \<Rightarrow> bool" where
  "rooms_ok h sol \<longleftrightarrow> list_all (\<lambda>a. a < length h \<and> ruang (h ! a) \<in> set room_names) sol"

text \<open>From one heap to a later one, every entry kept its room or got one of the fixed
  list.\<close>

definition room_step :: "jadwal list \<Rightarrow> jadwal list \<Rightarrow> bool" where
  "room_step h h' \<longleftrightarrow>
     length h' = length h
     \<and> (\<forall>b < length h. ruang (h' ! b) = ruang (h ! b) \<or> ruang (h' ! b) \<in> set room_names)"

text \<open>The draws under which one pass of the mutation loop takes its third branch, the
  mutation of the room: the first is below the mutation rate, the second and the third
  are not below 0.33.\<close>

definition room_branch :: "ga_params \<Rightarrow> rng \<Rightarrow> bool" where
  "room_branch P g \<longleftrightarrow>
     fst (random_random g) < mutation_rate P
     \<and> \<not> fst (random_random (draw_tail g)) < 0.33
     \<and> \<not> fst (random_random (draw_tail (draw_tail g))) < 0.33"

text \<open>The cut index that \<open>crossover\<close> draws for parents of length \<open>n\<close>: its second
  draw.\<close>

definition cut_point :: "nat \<Rightarrow> rng \<Rightarrow> nat" where
  "cut_point n g = 1 + draw_head (draw_tail g) mod (n - 1)"

text \<open>What selection, crossover and mutation leave alone, and the invariant of the best
  fitness: it is \<^verbatim>\<open>float('inf')\<close> or positive.\<close>

definition ga_kept :: "ga_state \<Rightarrow> ga_state \<Rightarrow> bool" where
  "ga_kept st st' \<longleftrightarrow>
     m_generations st' = m_generations st \<and> best_fitness st' = best_fitness st"

definition best_pos :: "ga_state \<Rightarrow> bool" where
  "best_pos st = (case best_fitness st of None \<Rightarrow> True | Some b \<Rightarrow> 0 < b)"

subsection \<open>Invariants of the tabu engine\<close>

text \<open>What \<^verbatim>\<open>get_neighbors\<close> leaves alone; how it extends the list objects, by copies of
  the solution \<open>s\<close> only; and what it returns, list objects made since \<open>lo\<close> whose entries
  are those of \<open>s\<close>.\<close>

definition same_control :: "ts_state \<Rightarrow> ts_state \<Rightarrow> bool" where
  "same_control st st' \<longleftrightarrow>
     current_solution st' = current_solution st \<and> ts_best_solution st' = ts_best_solution st
     \<and> ts_best_fitness st' = ts_best_fitness st \<and> tabu_list st' = tabu_list st
     \<and> m_iterations st' = m_iterations st \<and> diversification_count st' = diversification_count st
     \<and> length (ents st') = length (ents st)"

definition extends :: "nat \<Rightarrow> ts_state \<Rightarrow> ts_state \<Rightarrow> bool" where
  "extends s st st' \<longleftrightarrow>
     (\<exists>extra. lists st' = lists st @ extra \<and> set extra \<subseteq> {lists st ! s})
     \<and> same_control st st'"

definition copies_of :: "nat \<Rightarrow> nat \<Rightarrow> ts_state \<Rightarrow> nat list \<Rightarrow> ts_state \<Rightarrow> bool" where
  "copies_of s lo st nbs st' \<longleftrightarrow>
     (\<forall>n \<in> set nbs. lo \<le> n \<and> n < length (lists st') \<and> lists st' ! n = lists st ! s)"

text \<open>The current solution is a list object.\<close>

definition valid_ts :: "ts_state \<Rightarrow> bool" where
  "valid_ts st \<longleftrightarrow> current_solution st < length (lists st)"

text \<open>The result of the scan over the neighbours seen so far: no neighbour accepted, and
  every move tabu and short of the aspiration criterion; or a neighbour accepted, with
  its fitness, whose move is not tabu or which meets the aspiration criterion.\<close>

definition scan_ok :: "ts_params \<Rightarrow> ts_state \<Rightarrow> nat list \<Rightarrow> (nat \<times> real) option \<Rightarrow> bool" where
  "scan_ok P st nbs r =
     (case r of
        None \<Rightarrow> list_all (\<lambda>m. move_in_tabu st (current_solution st, m)
                              \<and> \<not> aspiration_criteria P st (objective_on P st m)) nbs
      | Some (n, f) \<Rightarrow> n \<in> set nbs \<and> f = objective_on P st n
            \<and> (\<not> move_in_tabu st (current_solution st, n) \<or> aspiration_criteria P st f))"

subsection \<open>Example inputs for the tabu engine\<close>

text \<open>A search with the conflict objective and a budget of three iterations, on the
  solution of one entry (Monday 08:00--10:00, room 301) under the oracle \<open>zeros\<close>, for
  which every \<^verbatim>\<open>time_diff\<close> is \<open>-30\<close>. \<open>ex_ts_0\<close> is the state after the constructor,
  \<open>ex_ts_1\<close>, \<open>ex_ts_2\<close> and \<open>ex_ts_3\<close> are the states after the iterations, and
  \<open>ex_ts_mid\<close>, \<open>ex_ts_mid2\<close> and \<open>ex_ts_mid3\<close> the states after \<^verbatim>\<open>get_neighbors\<close> in
  each iteration.\<close>

definition ex_ts :: ts_params where
  "ex_ts = \<lparr>objective = calculate_fitness, max_iter = 3, tabu_size = 10,
            aspiration_threshold = 0.1, diversification_threshold = 0.8,
            intensification_threshold = 0.9\<rparr>"

definition ex_ts_state :: "int \<Rightarrow> nat list list \<Rightarrow> nat \<Rightarrow> (nat \<times> nat) list \<Rightarrow> nat list
    \<Rightarrow> real list \<Rightarrow> nat list \<Rightarrow> nat \<Rightarrow> ts_state" where
  "ex_ts_state shift ls cur tabu its fs sizes divs =
     \<lparr>ents = [ex_entry ''Senin'' (480 - shift) (600 - shift) ''A'' ''301'' ''1''],
      lists = ls, ts_rng = zeros, current_solution = cur, ts_best_solution = 0,
      ts_best_fitness = 1, tabu_list = tabu, m_iterations = its, ts_m_best_fitness = fs,
      m_current_fitness = fs, m_tabu_size = sizes, diversification_count = divs,
      intensification_count = 0\<rparr>"

definition ex_ts_0 :: ts_state where
  "ex_ts_0 = ex_ts_state 0 [[0]] 0 [] [] [] [] 0"

definition ex_ts_mid :: ts_state where
  "ex_ts_mid = ex_ts_state 30 [[0], [0]] 0 [] [] [] [] 0"

definition ex_ts_1 :: ts_state where
  "ex_ts_1 = ex_ts_state 30 [[0], [0]] 1 [(1, 1)] [0] [1] [1] 0"

definition ex_ts_mid2 :: ts_state where
  "ex_ts_mid2 = ex_ts_state 60 [[0], [0], [0]] 1 [(1, 1)] [0] [1] [1] 0"

definition ex_ts_2 :: ts_state where
  "ex_ts_2 = ex_ts_state 60 [[0], [0], [0]] 2 [(1, 1), (2, 2)] [0, 1] [1, 1] [1, 2] 1"

definition ex_ts_mid3 :: ts_state where
  "ex_ts_mid3 = ex_ts_state 90 [[0], [0], [0], [0]] 2 [(1, 1), (2, 2)] [0, 1] [1, 1] [1, 2] 1"

definition ex_ts_3 :: ts_state where
  "ex_ts_3 = ex_ts_state 90 [[0], [0], [0], [0]] 3 [(1, 1), (2, 2), (3, 3)] [0, 1, 2]
               [1, 1, 1] [1, 2, 3] 2"

section \<open>Properties\<close>

subsection \<open>The conflict objective\<close>

lemma fold_add_sum_list:
  "fold (\<lambda>j c. c + f j) js (c::nat) = c + sum_list (map f js)"
  by (induction js arbitrary: c) auto

lemma sum_list_map_concat:
  "sum_list (map f (concat (map g xs)))
     = (sum_list (map (\<lambda>x. sum_list (map f (g x))) xs) :: nat)"
  by (induction xs) auto

lemma inner_loop_sum:
  "inner_loop S i c
     = c + sum_list (map (\<lambda>j. pair_conflicts (S ! i) (S ! j)) [i + 1 ..< length S])"
  unfolding inner_loop_def by (rule fold_add_sum_list)

lemma pair_conflicts_weight: "pair_conflicts a b = pair_weight a b"
  by (auto simp: pair_conflicts_def pair_weight_def overlaps_def)

lemma count_conflicts_pairs:
  "count_conflicts S
     = sum_list (map (\<lambda>(i, j). pair_weight (S ! i) (S ! j)) (index_pairs (length S)))"
proof -
  have "inner_loop S = (\<lambda>i c. c + sum_list (map (\<lambda>j. pair_conflicts (S ! i) (S ! j))
          [i + 1 ..< length S]))"
    by (intro ext) (rule inner_loop_sum)
  then have "count_conflicts S =
      fold (\<lambda>i c. c + sum_list (map (\<lambda>j. pair_conflicts (S ! i) (S ! j)) [i + 1 ..< length S]))
        [0 ..< length S] 0"
    unfolding count_conflicts_def by simp
  also have "\<dots> = sum_list (map (\<lambda>i. sum_list (map (\<lambda>j. pair_conflicts (S ! i) (S ! j))
        [i + 1 ..< length S])) [0 ..< length S])"
    by (simp add: fold_add_sum_list)
  also have "\<dots> = sum_list (map (\<lambda>(i, j). pair_weight (S ! i) (S ! j))
        (index_pairs (length S)))"
    by (simp add: index_pairs_def sum_list_map_concat comp_def pair_conflicts_weight)
  finally show ?thesis .
qed

lemma index_pairs_2: "index_pairs (Suc (Suc 0)) = [(0, 1)]"
  by (simp add: index_pairs_def upt_rec)

lemma count_conflicts_zero_iff: "count_conflicts S = 0 \<longleftrightarrow> overlap_count S = 0"
proof -
  have "count_conflicts S = 0 \<longleftrightarrow>
          (\<forall>p \<in> set (index_pairs (length S)). \<not> overlaps (S ! fst p) (S ! snd p))"
    by (auto simp: count_conflicts_pairs pair_weight_def split_def)
  also have "\<dots> \<longleftrightarrow> overlap_count S = 0"
    by (auto simp: overlap_count_def filter_empty_conv split_def)
  finally show ?thesis .
qed


lemma overlaps_spec_conflict: "overlaps a b \<Longrightarrow> spec_conflict a b"
  by (simp add: overlaps_def spec_conflict_def split: if_splits)

lemma spec_count_zero_overlap_zero: "spec_conflict_count S = 0 \<Longrightarrow> overlap_count S = 0"
  by (auto simp: spec_conflict_count_def overlap_count_def filter_empty_conv
        dest: overlaps_spec_conflict)

text \<open>
  Claim C2, as stated: the fitness is \<open>1 / (1 + n)\<close> for \<open>n\<close> the number of unordered
  pairs that conflict, each pair counting once, a conflict being a shared day with
  intersecting time windows and a shared room, instructor, or class label and semester.
  This fails on the code: for two entries in the same room at the same time with the
  same instructor the code counts 2 (the fitness is \<open>1/3\<close>, not \<open>1/2\<close>), and for two
  entries at the same time with the same instructor in different rooms the code counts
  nothing (the fitness is \<open>1\<close>, not \<open>1/2\<close>).
\<close>

theorem calculate_fitness_spec_count_counterexample:
  "calculate_fitness ex_same_room = 1 / 3
   \<and> 1 / (1 + real (spec_conflict_count ex_same_room)) = 1 / 2
   \<and> calculate_fitness ex_other_room = 1
   \<and> 1 / (1 + real (spec_conflict_count ex_other_room)) = 1 / 2"
  by (simp add: calculate_fitness_def count_conflicts_pairs spec_conflict_count_def
        index_pairs_2 pair_weight_def spec_conflict_def overlaps_def ex_entry_def
        ex_same_room_def ex_other_room_def)

text \<open>
  Claim C2, amended: the fitness is \<open>1 / (1 + n)\<close> where \<open>n\<close> is the sum, over the
  unordered pairs of positions \<open>i < j\<close>, of the weight of the pair: 0 unless the two
  entries overlap (same day, same room, intersecting time windows), and otherwise 1, plus
  1 when they have the same instructor, plus 1 when they have the same class label and
  the same semester.
\<close>

theorem calculate_fitness_weighted_pairs:
  "calculate_fitness S =
     1 / (1 + real (sum_list (map (\<lambda>(i, j). pair_weight (S ! i) (S ! j))
                                 (index_pairs (length S)))))"
  by (simp add: calculate_fitness_def count_conflicts_pairs)

theorem calculate_fitness_weighted_pairs_witness:
  "calculate_fitness ex_same_room = 1 / 3"
  using calculate_fitness_weighted_pairs [of ex_same_room]
  by (simp add: index_pairs_2 pair_weight_def overlaps_def ex_entry_def ex_same_room_def)

text \<open>
  Claim C3, as stated: for every solution the fitness lies in \<open>(0, 1]\<close>, and it is 1
  exactly when the conflict count is 0, the conflict count being the number of unordered
  pairs of entries that conflict (a shared day with intersecting time windows and a
  shared room, instructor, or class label and semester). This fails on the code: two
  entries at the same time with the same instructor in different rooms are one
  conflicting pair, and the fitness is 1.
\<close>

theorem fitness_one_with_conflict_counterexample:
  "calculate_fitness ex_other_room = 1 \<and> spec_conflict_count ex_other_room = 1"
  by (simp add: calculate_fitness_def count_conflicts_pairs spec_conflict_count_def
        index_pairs_2 pair_weight_def spec_conflict_def overlaps_def ex_entry_def
        ex_other_room_def)

text \<open>
  Claim C3, amended: for every solution the fitness lies in \<open>(0, 1]\<close>, and it is 1
  exactly when no unordered pair of entries overlaps (same day, same room, intersecting
  time windows), which is when the counter \<^verbatim>\<open>conflicts\<close> of the code is 0. A solution
  without a conflicting pair has fitness 1; a solution of fitness 1 may still hold pairs
  that conflict on the instructor or the class label in different rooms.
\<close>

theorem calculate_fitness_range:
  "0 < calculate_fitness S \<and> calculate_fitness S \<le> 1
   \<and> (calculate_fitness S = 1 \<longleftrightarrow> count_conflicts S = 0)
   \<and> (calculate_fitness S = 1 \<longleftrightarrow> overlap_count S = 0)
   \<and> (spec_conflict_count S = 0 \<longrightarrow> calculate_fitness S = 1)"
proof -
  have pos: "0 < 1 + real (count_conflicts S)" by simp
  have one: "calculate_fitness S = 1 \<longleftrightarrow> count_conflicts S = 0"
    by (simp add: calculate_fitness_def field_simps)
  have two: "calculate_fitness S = 1 \<longleftrightarrow> overlap_count S = 0"
    by (simp add: one count_conflicts_zero_iff)
  have range: "0 < calculate_fitness S \<and> calculate_fitness S \<le> 1"
    using pos by (simp add: calculate_fitness_def field_simps)
  from range one two spec_count_zero_overlap_zero [of S] show ?thesis by auto
qed

theorem calculate_fitness_range_witness:
  "spec_conflict_count ex_other_day = 0 \<and> calculate_fitness ex_other_day = 1
   \<and> overlap_count ex_other_room = 0 \<and> calculate_fitness ex_other_room = 1
   \<and> overlap_count ex_same_room = 1 \<and> 0 < calculate_fitness ex_same_room
   \<and> calculate_fitness ex_same_room < 1"
proof -
  have a: "overlap_count ex_other_room = 0" and b: "overlap_count ex_same_room = 1"
    by (simp_all add: overlap_count_def index_pairs_2 overlaps_def ex_entry_def
          ex_same_room_def ex_other_room_def)
  have c: "spec_conflict_count ex_other_day = 0"
    by (simp add: spec_conflict_count_def index_pairs_2 spec_conflict_def ex_entry_def
          ex_other_day_def)
  from a b c calculate_fitness_range [of ex_other_room] calculate_fitness_range [of ex_same_room]
    calculate_fitness_range [of ex_other_day]
  show ?thesis by simp
qed


subsection \<open>The solution generator and mutation\<close>


lemma random_choice_mem: "random_choice xs g = Inr (x, g') \<Longrightarrow> x \<in> set xs"
  by (auto simp: random_choice_def split: if_splits)

lemma random_choice_total: "xs \<noteq> [] \<Longrightarrow> \<exists>x g'. random_choice xs g = Inr (x, g') \<and> x \<in> set xs"
  by (simp add: random_choice_def)

lemma generate_entry_room:
  assumes "generate_entry c g = Inr (j, g')"
  shows "ruang j \<in> set room_names"
proof -
  from assms obtain r g2 g3 where "random_choice room_names g2 = Inr (r, g3)" "ruang j = r"
    by (auto simp: generate_entry_def new_jadwal_def Let_def split: sum.splits if_splits)
  then show ?thesis by (auto dest: random_choice_mem)
qed


lemma generate_entries_rooms:
  assumes "generate_entries cs acc st = Inr (sol, st')" "rooms_ok (heap st) acc"
  shows "rooms_ok (heap st') sol"
  using assms
proof (induction cs arbitrary: acc st)
  case Nil
  then show ?case by simp
next
  case (Cons c cs)
  from Cons.prems(1) obtain j g where ge: "generate_entry c (rng st) = Inr (j, g)"
    by (auto split: sum.splits)
  let ?st1 = "st\<lparr>heap := heap st @ [j], rng := g\<rparr>"
  from Cons.prems(1) ge have rest: "generate_entries cs (acc @ [length (heap st)]) ?st1 = Inr (sol, st')"
    by simp
  have "rooms_ok (heap ?st1) (acc @ [length (heap st)])"
    using Cons.prems(2) generate_entry_room [OF ge]
    by (auto simp: rooms_ok_def list_all_iff nth_append)
  from Cons.IH [OF rest this] show ?case .
qed

lemma generate_random_jadwal_rooms:
  assumes "generate_random_jadwal P st = Inr (sol, st')"
  shows "rooms_ok (heap st') sol"
proof -
  from assms obtain cs where "generate_entries cs [] st = Inr (sol, st')"
    by (auto simp: generate_random_jadwal_def split: sum.splits)
  then show ?thesis by (rule generate_entries_rooms) (simp add: rooms_ok_def)
qed

lemma generate_random_jadwal_ignores_rooms:
  "generate_random_jadwal (P\<lparr>data := (data P)\<lparr>ruang_kuliah := rs\<rparr>\<rparr>) st
     = generate_random_jadwal P st"
  by (simp add: generate_random_jadwal_def all_courses_def split: sum.splits)


lemma room_step_refl: "room_step h h"
  by (simp add: room_step_def)

lemma room_step_trans: "room_step h h1 \<Longrightarrow> room_step h1 h2 \<Longrightarrow> room_step h h2"
  by (fastforce simp: room_step_def)

lemma mutate_entry_total: "\<exists>st'. mutate_entry P a st = Inr st'"
  by (simp add: mutate_entry_def random_choice_def Let_def split_def time_slots_def
        day_names_def room_names_def)

lemma mutate_entry_rooms:
  assumes "mutate_entry P a st = Inr st'"
  shows "room_step (heap st) (heap st')"
proof -
  have upd: "\<And>r. r \<in> set room_names \<Longrightarrow>
      room_step (heap st) ((heap st)[a := (heap st ! a)\<lparr>ruang := r\<rparr>])"
    by (cases "a < length (heap st)") (auto simp: room_step_def nth_list_update)
  have keep: "\<And>f. (\<And>j. ruang (f j) = ruang j) \<Longrightarrow>
      room_step (heap st) ((heap st)[a := f (heap st ! a)])"
    by (cases "a < length (heap st)") (auto simp: room_step_def nth_list_update)
  from assms show ?thesis
    apply (auto simp: mutate_entry_def Let_def split_def room_step_refl
        split: if_splits sum.splits dest!: random_choice_mem intro!: upd)
     apply (rule keep [where f = "\<lambda>j. j\<lparr>waktu_mulai := _, waktu_selesai := _\<rparr>"], simp)
    apply (rule keep [where f = "\<lambda>j. j\<lparr>hari := _\<rparr>"], simp)
    done
qed


lemma room_names_nth: "room_names ! (k mod 15) \<in> set room_names"
proof -
  have "length room_names = 15" by (simp add: room_names_def)
  then have "k mod 15 < length room_names" by simp
  then show ?thesis by (rule nth_mem)
qed

lemma mutate_entry_room_branch:
  assumes "room_branch P (rng st)" "a < length (heap st)"
  shows "\<exists>st'. mutate_entry P a st = Inr st' \<and> ruang (heap st' ! a) \<in> set room_names"
proof -
  let ?r = "room_names ! (draw_head (draw_tail (draw_tail (draw_tail (rng st)))) mod 15)"
  have len: "length room_names = 15" "room_names \<noteq> []" by (simp_all add: room_names_def)
  from assms(1) have "mutate_entry P a st =
      Inr (st\<lparr>heap := (heap st)[a := (heap st ! a)\<lparr>ruang := ?r\<rparr>],
              rng := draw_tail (draw_tail (draw_tail (draw_tail (rng st)))),
              mutation_count := mutation_count st + 1\<rparr>)"
    by (simp add: mutate_entry_def room_branch_def random_random_def random_choice_def len)
  with assms(2) room_names_nth show ?thesis by simp
qed

lemma mutate_loop_total: "\<exists>st'. mutate_loop P as st = Inr st'"
proof (induction as arbitrary: st)
  case Nil
  show ?case by simp
next
  case (Cons a as)
  from mutate_entry_total obtain st1 where "mutate_entry P a st = Inr st1" by blast
  with Cons.IH [of st1] show ?case by simp
qed

lemma mutate_loop_rooms:
  "mutate_loop P as st = Inr st' \<Longrightarrow> room_step (heap st) (heap st')"
proof (induction as arbitrary: st)
  case Nil
  then show ?case by (simp add: room_step_refl)
next
  case (Cons a as)
  from Cons.prems obtain st1 where me: "mutate_entry P a st = Inr st1"
    and rest: "mutate_loop P as st1 = Inr st'"
    by (auto split: sum.splits)
  from mutate_entry_rooms [OF me] Cons.IH [OF rest] show ?case by (rule room_step_trans)
qed

lemma mutate_returns_input:
  "\<exists>st'. mutate P individu st = Inr (individu, st')"
  using mutate_loop_total [of P individu st] by (auto simp: mutate_def)

lemma mutate_rooms:
  assumes "mutate P individu st = Inr (mutated, st')"
  shows "room_step (heap st) (heap st')"
proof -
  from assms have "mutate_loop P individu st = Inr st'"
    by (auto simp: mutate_def split: sum.splits)
  then show ?thesis by (rule mutate_loop_rooms)
qed

lemma mutate_entry_ignores_data: "mutate_entry (P\<lparr>data := d\<rparr>) a st = mutate_entry P a st"
  by (simp add: mutate_entry_def)

lemma mutate_loop_ignores_data: "mutate_loop (P\<lparr>data := d\<rparr>) as st = mutate_loop P as st"
  by (induction as arbitrary: st) (simp_all add: mutate_entry_ignores_data split: sum.splits)

lemma mutate_ignores_data: "mutate (P\<lparr>data := d\<rparr>) individu st = mutate P individu st"
  by (simp add: mutate_def mutate_loop_ignores_data)

subsection \<open>Selection and crossover\<close>

lemma sample_from_length: "length (fst (sample_from xs k g)) = k"
  by (induction k arbitrary: xs g) (simp_all add: Let_def split_def)

lemma sample_from_subset:
  "k \<le> length xs \<Longrightarrow> set (fst (sample_from xs k g)) \<subseteq> set xs"
proof (induction k arbitrary: xs g)
  case 0
  then show ?case by simp
next
  case (Suc k)
  let ?i = "draw_head g mod length xs"
  let ?rest = "take ?i xs @ drop (Suc ?i) xs"
  from Suc.prems have pos: "0 < length xs" by (cases xs) auto
  then have i: "?i < length xs" by simp
  then have "length ?rest = length xs - 1" by simp
  with Suc.prems have "k \<le> length ?rest" by simp
  from Suc.IH [OF this, of "draw_tail g"]
  have "set (fst (sample_from ?rest k (draw_tail g))) \<subseteq> set ?rest" .
  moreover have "set ?rest \<subseteq> set xs"
    by (auto dest: in_set_takeD in_set_dropD)
  moreover from i have "xs ! ?i \<in> set xs" by simp
  ultimately show ?case by (auto simp: Let_def split_def)
qed

lemma py_min_key_mem:
  "xs \<noteq> [] \<Longrightarrow> \<exists>x. py_min_key f xs = Inr x \<and> x \<in> set xs"
proof -
  have "\<And>b. fold (\<lambda>y best. if f y < f best then y else best) ys b \<in> set (b # ys)" for ys
    by (induction ys) (auto split: if_splits)
  then show "xs \<noteq> [] \<Longrightarrow> \<exists>x. py_min_key f xs = Inr x \<and> x \<in> set xs"
    by (cases xs) (auto simp: py_min_key_def simp del: fold_simps)
qed

lemma tournament_selection_total:
  assumes "tournament_size \<le> length populasi"
  shows "\<exists>best. tournament_selection populasi st
             = Inr (best, st\<lparr>rng := snd (sample_from populasi tournament_size (rng st))\<rparr>)
           \<and> best \<in> set populasi"
proof -
  let ?r = "sample_from populasi tournament_size (rng st)"
  have "length (fst ?r) = tournament_size" by (rule sample_from_length)
  then have ne: "fst ?r \<noteq> []" by (auto simp: tournament_size_def)
  from py_min_key_mem [OF ne, of "fitness_on (heap st)"]
  obtain best where b: "py_min_key (fitness_on (heap st)) (fst ?r) = Inr best" "best \<in> set (fst ?r)"
    by blast
  from sample_from_subset [OF assms] b(2) have "best \<in> set populasi" by blast
  moreover from assms b(1) have "tournament_selection populasi st = Inr (best, st\<lparr>rng := snd ?r\<rparr>)"
    by (simp add: tournament_selection_def random_sample_def split_def)
  ultimately show ?thesis by blast
qed

lemma tournament_selection_small:
  "length populasi < tournament_size \<Longrightarrow> tournament_selection populasi st = Inl SampleValueError"
  by (simp add: tournament_selection_def random_sample_def)

lemma random_random_range: "0 \<le> fst (random_random g) \<and> fst (random_random g) < 1"
proof -
  have "draw_head g mod 2 ^ 53 < 2 ^ 53" by simp
  then have "real (draw_head g mod 2 ^ 53) < 2 ^ 53"
    by (metis of_nat_less_iff of_nat_numeral of_nat_power)
  then show ?thesis by (simp add: random_random_def)
qed


lemma crossover_performed:
  assumes "fst (random_random (rng st)) \<le> crossover_rate P" "2 \<le> length parent1"
  shows "crossover P parent1 parent2 st =
           Inr ((take (cut_point (length parent1) (rng st)) parent1
                   @ drop (cut_point (length parent1) (rng st)) parent2,
                 take (cut_point (length parent1) (rng st)) parent2
                   @ drop (cut_point (length parent1) (rng st)) parent1),
                st\<lparr>rng := draw_tail (draw_tail (rng st)),
                   crossover_count := crossover_count st + 1\<rparr>)"
proof -
  from assms(2) have "nat (int (length parent1) - 1) = length parent1 - 1" by simp
  with assms show ?thesis
    by (simp add: crossover_def random_random_def random_randint_def Let_def cut_point_def
          nat_add_distrib)
qed

lemma crossover_skipped:
  assumes "crossover_rate P < fst (random_random (rng st))"
  shows "crossover P parent1 parent2 st = Inr ((parent1, parent2), st\<lparr>rng := draw_tail (rng st)\<rparr>)"
  using assms by (simp add: crossover_def random_random_def Let_def)

lemma crossover_short:
  assumes "fst (random_random (rng st)) \<le> crossover_rate P" "length parent1 < 2"
  shows "crossover P parent1 parent2 st = Inl RandrangeValueError"
  using assms by (simp add: crossover_def random_random_def random_randint_def Let_def)

lemma cut_point_range: "2 \<le> n \<Longrightarrow> 1 \<le> cut_point n g \<and> cut_point n g < n"
proof -
  assume "2 \<le> n"
  then have "draw_head (draw_tail g) mod (n - 1) < n - 1" by simp
  then show ?thesis by (simp add: cut_point_def)
qed

lemma splice_eq_iff: "take p xs @ drop p ys = xs \<longleftrightarrow> drop p ys = drop p xs"
  using same_append_eq [of "take p xs" "drop p ys" "drop p xs"] by simp

subsection \<open>The generation loop\<close>

lemma ga_kept_refl: "ga_kept st st"
  by (simp add: ga_kept_def)

lemma ga_kept_trans: "ga_kept st st1 \<Longrightarrow> ga_kept st1 st2 \<Longrightarrow> ga_kept st st2"
  by (simp add: ga_kept_def)

lemma tournament_selection_kept:
  "tournament_selection populasi st = Inr (p, st') \<Longrightarrow> ga_kept st st'"
  by (auto simp: tournament_selection_def ga_kept_def split: sum.splits)

lemma crossover_kept:
  "crossover P p1 p2 st = Inr (children, st') \<Longrightarrow> ga_kept st st'"
  by (auto simp: crossover_def ga_kept_def Let_def split_def split: sum.splits if_splits)

lemma mutate_entry_kept: "mutate_entry P a st = Inr st' \<Longrightarrow> ga_kept st st'"
  by (auto simp: mutate_entry_def ga_kept_def Let_def split_def split: sum.splits if_splits)

lemma mutate_loop_kept: "mutate_loop P as st = Inr st' \<Longrightarrow> ga_kept st st'"
proof (induction as arbitrary: st)
  case Nil
  then show ?case by (simp add: ga_kept_refl)
next
  case (Cons a as)
  from Cons.prems obtain st1 where me: "mutate_entry P a st = Inr st1"
    and rest: "mutate_loop P as st1 = Inr st'"
    by (auto split: sum.splits)
  from mutate_entry_kept [OF me] Cons.IH [OF rest] show ?case by (rule ga_kept_trans)
qed

lemma mutate_kept: "mutate P individu st = Inr (m, st') \<Longrightarrow> ga_kept st st'"
  by (auto simp: mutate_def split: sum.splits dest: mutate_loop_kept)

lemma breed_result:
  "breed P populasi new st = Inr (new', st') \<Longrightarrow> (\<exists>more. new' = new @ more) \<and> ga_kept st st'"
proof (induction P populasi new st rule: breed.induct)
  case (1 P populasi new st)
  show ?case
  proof (cases "length new < ukuran_populasi P")
    case False
    with "1.prems" show ?thesis by (simp add: breed.simps ga_kept_refl)
  next
    case True
    from "1.prems" True obtain p1 st1 where t1: "tournament_selection populasi st = Inr (p1, st1)"
      by (subst (asm) breed.simps) (auto split: sum.splits)
    from "1.prems" True t1 obtain p2 st2 where t2: "tournament_selection populasi st1 = Inr (p2, st2)"
      by (subst (asm) breed.simps) (auto split: sum.splits)
    from "1.prems" True t1 t2 obtain children st3 where
      co: "crossover P p1 p2 st2 = Inr (children, st3)"
      by (subst (asm) breed.simps) (auto split: sum.splits)
    from "1.prems" True t1 t2 co obtain c1 st4 where
      m1: "mutate P (fst children) st3 = Inr (c1, st4)"
      by (subst (asm) breed.simps) (auto split: sum.splits)
    have k4: "ga_kept st st4"
      using tournament_selection_kept [OF t1] tournament_selection_kept [OF t2]
        crossover_kept [OF co] mutate_kept [OF m1]
      by (simp add: ga_kept_def)
    show ?thesis
    proof (cases "ukuran_populasi P \<le> length (new @ [c1])")
      case full: True
      with "1.prems" True t1 t2 co m1
      have "breed P populasi (new @ [c1]) st4 = Inr (new', st')"
        by (subst (asm) breed.simps) simp
      from "1.IH"(1) [OF True t1 refl t2 refl co refl m1 refl full this] k4
      show ?thesis by (auto simp: ga_kept_def)
    next
      case notfull: False
      from "1.prems" True t1 t2 co m1 notfull obtain c2 st5 where
        m2: "mutate P (snd children) st4 = Inr (c2, st5)"
        by (subst (asm) breed.simps) (auto split: sum.splits)
      with "1.prems" True t1 t2 co m1 notfull
      have "breed P populasi (new @ [c1] @ [c2]) st5 = Inr (new', st')"
        by (subst (asm) breed.simps) simp
      from "1.IH"(2) [OF True t1 refl t2 refl co refl m1 refl notfull m2 refl this] k4 mutate_kept [OF m2]
      show ?thesis by (auto simp: ga_kept_def)
    qed
  qed
qed



lemma calculate_fitness_pos: "0 < calculate_fitness S"
  by (simp add: calculate_fitness_def)

lemma record_stats_result:
  assumes "record_stats gen populasi st = Inr st1"
  shows "heap st1 = heap st \<and> best_fitness st1 = best_fitness st
         \<and> m_generations st1 = m_generations st @ [gen]"
  using assms
  by (auto simp: record_stats_def Let_def split: sum.splits if_splits)

lemma update_best_result:
  assumes "update_best populasi st = Inr st'"
  shows "heap st' = heap st \<and> m_generations st' = m_generations st
         \<and> (best_pos st \<longrightarrow> best_pos st')"
  using assms
  by (auto simp: update_best_def Let_def best_pos_def fitness_on_def calculate_fitness_pos
        split: sum.splits if_splits option.splits)

lemma stop_condition_pos: "best_pos st \<Longrightarrow> \<not> stop_condition st"
  by (auto simp: best_pos_def stop_condition_def split: option.splits)

lemma generation_parts:
  assumes "generation P gen populasi st = Inr (populasi', st')"
  shows "\<exists>st1 new_populasi st2.
           record_stats gen populasi st = Inr st1
           \<and> breed P populasi (select_elites P (heap st) populasi) st1 = Inr (new_populasi, st2)
           \<and> populasi' = take (ukuran_populasi P) new_populasi
           \<and> update_best populasi' st2 = Inr st'"
proof -
  from assms obtain st1 where rs: "record_stats gen populasi st = Inr st1"
    by (auto simp: generation_def split: sum.splits)
  from record_stats_result [OF rs] have h1: "heap st1 = heap st" by simp
  from assms rs obtain new_populasi st2 where
    br: "breed P populasi (select_elites P (heap st1) populasi) st1 = Inr (new_populasi, st2)"
    by (auto simp: generation_def Let_def split: sum.splits)
  from assms rs br have "populasi' = take (ukuran_populasi P) new_populasi"
    "update_best (take (ukuran_populasi P) new_populasi) st2 = Inr st'"
    by (auto simp: generation_def Let_def split: sum.splits)
  with rs br h1 show ?thesis by auto
qed

lemma generation_result:
  assumes "generation P gen populasi st = Inr (populasi', st')"
  shows "m_generations st' = m_generations st @ [gen] \<and> (best_pos st \<longrightarrow> best_pos st')"
proof -
  from generation_parts [OF assms] obtain st1 new_populasi st2 where
    rs: "record_stats gen populasi st = Inr st1"
    and br: "breed P populasi (select_elites P (heap st) populasi) st1 = Inr (new_populasi, st2)"
    and ub: "update_best populasi' st2 = Inr st'"
    by blast
  from record_stats_result [OF rs] breed_result [OF br] update_best_result [OF ub]
  show ?thesis by (auto simp: ga_kept_def best_pos_def)
qed

lemma run_loop_to_budget:
  assumes "run_loop P gens populasi st = Inr st'" "best_pos st"
  shows "m_generations st' = m_generations st @ gens \<and> best_pos st'"
  using assms
proof (induction gens arbitrary: populasi st)
  case Nil
  then show ?case by simp
next
  case (Cons gen gens)
  from Cons.prems(1) obtain populasi1 st1 where
    g: "generation P gen populasi st = Inr (populasi1, st1)"
    by (auto split: sum.splits)
  from generation_result [OF g] Cons.prems(2)
  have m1: "m_generations st1 = m_generations st @ [gen]" and p1: "best_pos st1" by simp_all
  from Cons.prems(1) g stop_condition_pos [OF p1]
  have "run_loop P gens populasi1 st1 = Inr st'" by simp
  from Cons.IH [OF this p1] m1 show ?case by simp
qed

lemma sorted_take_drop_le:
  assumes "sorted (map f xs)" "e \<in> set (take k xs)" "x \<in> set (drop k xs)"
  shows "f e \<le> f x"
proof -
  have "sorted (map f (take k xs) @ map f (drop k xs))"
    using assms(1) by (simp flip: map_append)
  with assms(2,3) show ?thesis by (auto simp: sorted_append)
qed


subsection \<open>Evaluation of the examples\<close>

lemma zeros_simps [simp]: "draw_head zeros = 0" "draw_tail zeros = zeros"
  by (simp_all add: zeros_def draw_head_def draw_tail_def)

lemma halves_simps [simp]: "draw_head halves = 2 ^ 52" "draw_tail halves = halves"
  by (simp_all add: halves_def draw_head_def draw_tail_def)

lemma str_nat_1: "str_nat (Suc 0) = ''1''"
  by code_simp

lemma ex_generate:
  "generate_random_jadwal (ex_ga 1 3 0.8 0.1 0.1) (init_state zeros) = Inr ([0], ex_generated)"
  by (simp add: generate_random_jadwal_def all_courses_def bucket_def ex_ga_def ex_catalog_def
      generate_entry_def random_choice_def random_randint_def new_jadwal_def validate_time_def
      validate_semester_def time_slots_def day_names_def room_names_def ex_course_def
      init_state_def ex_entry_def str_nat_1 ex_generated_def)

lemma ex_mutate:
  "mutate (ex_ga 1 3 0.8 1 0.1) [0] ex_before_mutation = Inr ([0], ex_after_mutation)"
  by (simp add: mutate_def mutate_entry_def random_random_def random_choice_def ex_ga_def
      room_names_def init_state_def ex_entry_def ex_before_mutation_def ex_after_mutation_def)

lemma ex_room_branch: "room_branch (ex_ga 1 3 0.8 1 0.1) (rng ex_before_mutation)"
  by (simp add: room_branch_def random_random_def ex_ga_def ex_before_mutation_def
        init_state_def)

lemma ex_init: "init_ga ex_catalog 3 1 0.8 0.1 0.1 = Inr (ex_ga 3 1 0.8 0.1 0.1)"
  by (simp add: init_ga_def validate_data_def ex_catalog_def ex_course_def ex_ga_def)

lemma ex_run_raises_code:
  "(case run (ex_ga 3 1 0.8 0.1 0.1) (init_state zeros) of
      Inl e \<Rightarrow> e = AttributeError
    | Inr _ \<Rightarrow> False)"
  by code_simp

lemma ex_run_raises: "run (ex_ga 3 1 0.8 0.1 0.1) (init_state zeros) = Inl AttributeError"
  using ex_run_raises_code by (auto split: sum.splits)

lemma index_pairs_1: "index_pairs (Suc 0) = []"
  by (simp add: index_pairs_def)

lemma calculate_fitness_single: "calculate_fitness [j] = 1"
  by (simp add: calculate_fitness_def count_conflicts_def inner_loop_def)

lemma ex_init_population:
  "init_population (ex_ga 1 3 0.8 0.1 0.1) 1 (init_state zeros) = Inr ([[0]], ex_generated)"
proof -
  have "init_population (ex_ga 1 3 0.8 0.1 0.1) (Suc 0) (init_state zeros)
          = Inr ([[0]], ex_generated)"
    by (simp only: init_population.simps ex_generate sum.case prod.case)
  then show ?thesis by simp
qed

lemma num_elites_examples:
  "num_elites (ex_ga 1 3 0.8 0.1 0.1) = 2
   \<and> num_elites (ex_ga 10 1 0.8 0.1 0.3) = 3
   \<and> num_elites (ex_ga 100 1 0.8 0.1 0.29) = 28
   \<and> num_elites (ex_ga 10 1 0.8 0.1 0.375) = 3
   \<and> spec_num_elites (ex_ga 10 1 0.8 0.1 0.375) = 4
   \<and> spec_num_elites (ex_ga 1 3 0.8 0.1 0.1) = 2"
  by code_simp

lemma num_elites_ge_2: "2 \<le> num_elites P"
  by (simp add: num_elites_def)

lemma select_elites_single: "select_elites P h [x] = [x]"
  using num_elites_ge_2 [of P] by (cases "nat (num_elites P)") (auto simp: select_elites_def)

lemma ex_elites_one:
  "select_elites (ex_ga 1 3 0.8 0.1 0.1) (heap ex_generated) [[0]] = [[0]]"
  by (rule select_elites_single)

lemma ex_generation_one:
  "generation (ex_ga 1 3 0.8 0.1 0.1) 0 [[0]] ex_generated = Inr ([[0]], ex_first_generation)"
  by (simp add: generation_def record_stats_def calculate_diversity_def py_min_key_def
        fitness_on_def deref_def calculate_fitness_single index_pairs_1
        select_elites_single breed.simps update_best_def Let_def
        ex_ga_def ex_generated_def ex_first_generation_def init_state_def)

lemma ex_run_one_code:
  "(case run (ex_ga 1 3 0.8 0.1 0.1) (init_state zeros) of
      Inl e \<Rightarrow> False
    | Inr st \<Rightarrow> best_fitness st = Some 1 \<and> m_best_fitness st = [1, 1, 1]
                 \<and> m_generations st = [0, 1, 2] \<and> best_solution st = Some [0])"
  by code_simp

subsection \<open>The claims about the genetic engine\<close>

text \<open>
  Claim C10: every entry that the solution generator produces, and every entry after a
  mutation of its room, has a room of the fixed list of 15 rooms in the engine; the
  catalog's \<^verbatim>\<open>ruang_kuliah\<close> is never read, so the generator and the mutation give the
  same result for two catalogs that differ only there. A mutation leaves the room of an
  entry as it was or sets it to a room of the list, and the pass of the loop that takes
  the room branch sets it to a room of the list.
\<close>

theorem rooms_from_fixed_list:
  "(generate_random_jadwal P st = Inr (sol, st')
      \<longrightarrow> (\<forall>a \<in> set sol. ruang (heap st' ! a) \<in> set room_names))
   \<and> generate_random_jadwal (P\<lparr>data := (data P)\<lparr>ruang_kuliah := rs\<rparr>\<rparr>) st
       = generate_random_jadwal P st
   \<and> (mutate P individu st = Inr (mutated, st'')
        \<longrightarrow> (\<forall>b < length (heap st).
               ruang (heap st'' ! b) = ruang (heap st ! b)
               \<or> ruang (heap st'' ! b) \<in> set room_names))
   \<and> mutate (P\<lparr>data := (data P)\<lparr>ruang_kuliah := rs\<rparr>\<rparr>) individu st = mutate P individu st
   \<and> (room_branch P (rng st) \<and> a < length (heap st)
        \<longrightarrow> (\<exists>st3. mutate_entry P a st = Inr st3 \<and> ruang (heap st3 ! a) \<in> set room_names))"
proof -
  have "generate_random_jadwal P st = Inr (sol, st')
      \<longrightarrow> (\<forall>a \<in> set sol. ruang (heap st' ! a) \<in> set room_names)"
    using generate_random_jadwal_rooms [of P st sol st']
    by (auto simp: rooms_ok_def list_all_iff)
  moreover have "mutate P individu st = Inr (mutated, st'')
        \<longrightarrow> (\<forall>b < length (heap st).
               ruang (heap st'' ! b) = ruang (heap st ! b)
               \<or> ruang (heap st'' ! b) \<in> set room_names)"
    using mutate_rooms [of P individu st mutated st''] by (auto simp: room_step_def)
  moreover have "room_branch P (rng st) \<and> a < length (heap st)
        \<longrightarrow> (\<exists>st3. mutate_entry P a st = Inr st3 \<and> ruang (heap st3 ! a) \<in> set room_names)"
    using mutate_entry_room_branch [of P st a] by blast
  ultimately show ?thesis
    by (simp add: generate_random_jadwal_ignores_rooms mutate_ignores_data)
qed

theorem rooms_from_fixed_list_witness:
  "generate_random_jadwal (ex_ga 1 3 0.8 0.1 0.1) (init_state zeros) = Inr ([0], ex_generated)
   \<and> ruang (heap ex_generated ! 0) = ''301''
   \<and> ruang (heap ex_generated ! 0) \<in> set room_names
   \<and> ruang (heap ex_generated ! 0) \<notin> set (ruang_kuliah (data (ex_ga 1 3 0.8 0.1 0.1)))
   \<and> mutate (ex_ga 1 3 0.8 1 0.1) [0] ex_before_mutation = Inr ([0], ex_after_mutation)
   \<and> ruang (heap ex_after_mutation ! 0) = ''305''
   \<and> ruang (heap ex_after_mutation ! 0) \<in> set room_names
   \<and> room_branch (ex_ga 1 3 0.8 1 0.1) (rng ex_before_mutation)"
proof -
  from rooms_from_fixed_list [of "ex_ga 1 3 0.8 0.1 0.1" "init_state zeros" "[0]" ex_generated]
    ex_generate
  have a: "ruang (heap ex_generated ! 0) \<in> set room_names" by simp
  from rooms_from_fixed_list [of "ex_ga 1 3 0.8 1 0.1" ex_before_mutation _ _ _ "[0]" "[0]"
      ex_after_mutation 0] ex_mutate
  have b: "ruang (heap ex_after_mutation ! 0) = ruang (heap ex_before_mutation ! 0)
           \<or> ruang (heap ex_after_mutation ! 0) \<in> set room_names"
    by (simp add: ex_before_mutation_def)
  have c: "ruang (heap ex_generated ! 0) = ''301''"
    "ruang (heap ex_after_mutation ! 0) = ''305''"
    "ruang (heap ex_before_mutation ! 0) = ''301''"
    "ruang_kuliah (data (ex_ga 1 3 0.8 0.1 0.1)) = [''R1'']"
    by (simp_all add: ex_generated_def ex_after_mutation_def ex_before_mutation_def ex_entry_def
          ex_ga_def ex_catalog_def)
  from a b c ex_generate ex_mutate ex_room_branch show ?thesis by simp
qed

text \<open>
  Claim C9, as stated: with \<^verbatim>\<open>crossover_rate = 1.0\<close> the crossover of two parents of
  length \<open>N\<close> always returns two sequences of length \<open>N\<close>, and when the parents are not
  identical a child differs from its parent at some position. This fails on the code:
  parents that differ only before the cut come back unchanged, and parents of length 1
  get no children, because \<^verbatim>\<open>random.randint(1, 0)\<close> raises.
\<close>

theorem crossover_unchanged_counterexample:
  "([1, 3] :: nat list) \<noteq> [2, 3]
   \<and> crossover (ex_ga 4 5 1 0.1 0.1) [1, 3] [2, 3 :: nat] (init_state zeros)
       = Inr (([1, 3], [2, 3]), (init_state zeros)\<lparr>crossover_count := 1\<rparr>)
   \<and> crossover (ex_ga 4 5 1 0.1 0.1) [1] [2 :: nat] (init_state zeros)
       = Inl RandrangeValueError"
  by (simp add: crossover_def random_random_def random_randint_def ex_ga_def init_state_def)

text \<open>
  Claim C9, amended: with \<^verbatim>\<open>crossover_rate = 1.0\<close> and two parents of the same length
  \<open>N \<ge> 2\<close>, the crossover returns the two children \<open>p1[:point] + p2[point:]\<close> and
  \<open>p2[:point] + p1[point:]\<close> for a cut \<open>1 \<le> point < N\<close>, both of length \<open>N\<close>; a child
  differs from its parent exactly when the parents differ at some position from the cut
  on.
\<close>

theorem crossover_one_point:
  assumes "crossover_rate P = 1" "length parent1 = N" "length parent2 = N" "2 \<le> N"
  shows "\<exists>point child1 child2 st'.
           crossover P parent1 parent2 st = Inr ((child1, child2), st')
           \<and> 1 \<le> point \<and> point < N
           \<and> child1 = take point parent1 @ drop point parent2
           \<and> child2 = take point parent2 @ drop point parent1
           \<and> length child1 = N \<and> length child2 = N
           \<and> (child1 \<noteq> parent1 \<longleftrightarrow> drop point parent1 \<noteq> drop point parent2)
           \<and> (child2 \<noteq> parent2 \<longleftrightarrow> drop point parent1 \<noteq> drop point parent2)"
proof -
  let ?p = "cut_point N (rng st)"
  let ?c1 = "take ?p parent1 @ drop ?p parent2"
  let ?c2 = "take ?p parent2 @ drop ?p parent1"
  from random_random_range [of "rng st"] assms(1)
  have drawn: "fst (random_random (rng st)) \<le> crossover_rate P" by simp
  from crossover_performed [OF drawn, of parent1 parent2] assms(2,4)
  have run: "crossover P parent1 parent2 st =
      Inr ((?c1, ?c2), st\<lparr>rng := draw_tail (draw_tail (rng st)),
                           crossover_count := crossover_count st + 1\<rparr>)"
    by simp
  from cut_point_range [OF assms(4)] have rg: "1 \<le> ?p" "?p < N" by simp_all
  from rg assms(2,3) have len: "length ?c1 = N" "length ?c2 = N" by simp_all
  have d1: "?c1 \<noteq> parent1 \<longleftrightarrow> drop ?p parent1 \<noteq> drop ?p parent2"
    by (auto simp: splice_eq_iff)
  have d2: "?c2 \<noteq> parent2 \<longleftrightarrow> drop ?p parent1 \<noteq> drop ?p parent2"
    by (auto simp: splice_eq_iff)
  from run rg len d1 d2 show ?thesis by blast
qed

theorem crossover_one_point_witness:
  "\<exists>point child1 child2 st'.
     crossover (ex_ga 4 5 1 0.1 0.1) [1, 2, 3] [4, 5, 6 :: nat] (init_state zeros)
       = Inr ((child1, child2), st')
     \<and> 1 \<le> point \<and> point < 3
     \<and> child1 = take point [1, 2, 3] @ drop point [4, 5, 6]
     \<and> child2 = take point [4, 5, 6] @ drop point [1, 2, 3]
     \<and> length child1 = 3 \<and> length child2 = 3
     \<and> child1 \<noteq> [1, 2, 3] \<and> child2 \<noteq> [4, 5, 6]"
proof -
  from crossover_one_point
    [of "ex_ga 4 5 1 0.1 0.1" "[1, 2, 3 :: nat]" 3 "[4, 5, 6 :: nat]" "init_state zeros"]
  obtain point child1 child2 st' where
    r: "crossover (ex_ga 4 5 1 0.1 0.1) [1, 2, 3] [4, 5, 6 :: nat] (init_state zeros)
          = Inr ((child1, child2), st')"
      "1 \<le> point" "point < 3"
      "child1 = take point [1, 2, 3] @ drop point [4, 5, 6]"
      "child2 = take point [4, 5, 6] @ drop point [1, 2, 3]"
      "length child1 = 3" "length child2 = 3"
      "child1 \<noteq> [1, 2, 3] \<longleftrightarrow> drop point [1, 2, 3 :: nat] \<noteq> drop point [4, 5, 6]"
      "child2 \<noteq> [4, 5, 6] \<longleftrightarrow> drop point [1, 2, 3 :: nat] \<noteq> drop point [4, 5, 6]"
    by (auto simp: ex_ga_def)
  from r(2,3) have "point = 1 \<or> point = 2" by auto
  then have "drop point [1, 2, 3 :: nat] \<noteq> drop point [4, 5, 6]"
    by (auto simp: numeral_2_eq_2)
  with r show ?thesis by blast
qed

text \<open>
  Claim C8, as stated: for parameters in their documented ranges (population size at
  least 1) and a well-formed catalog the engine raises nothing but the validation error
  of the constructor, and tournament selection, crossover and mutation never raise on
  well-formed solutions. This fails on the code. The constructor accepts a population
  size of 3, and the run raises; tournament selection on a population of 3 raises the
  \<^verbatim>\<open>ValueError\<close> of \<^verbatim>\<open>random.sample\<close>; a crossover of one-entry parents raises the
  \<^verbatim>\<open>ValueError\<close> of \<^verbatim>\<open>random.randint\<close>.
\<close>

theorem operators_raise_counterexample:
  "init_ga ex_catalog 3 1 0.8 0.1 0.1 = Inr (ex_ga 3 1 0.8 0.1 0.1)
   \<and> run (ex_ga 3 1 0.8 0.1 0.1) (init_state zeros) = Inl AttributeError
   \<and> tournament_selection [[0], [1], [2]] ex_population = Inl SampleValueError
   \<and> crossover (ex_ga 3 1 1 0.1 0.1) [0] [1 :: nat] ex_population = Inl RandrangeValueError"
proof -
  have "tournament_selection [[0], [1], [2]] ex_population = Inl SampleValueError"
    by (simp add: tournament_selection_small tournament_size_def)
  moreover
  have "crossover (ex_ga 3 1 1 0.1 0.1) [0] [1 :: nat] ex_population = Inl RandrangeValueError"
    by (simp add: crossover_def random_random_def random_randint_def ex_ga_def init_state_def
          ex_population_def)
  ultimately show ?thesis using ex_init ex_run_raises by simp
qed

text \<open>
  Claim C8, amended: tournament selection returns a member of the population when the
  population has at least \<^verbatim>\<open>tournament_size = 5\<close> members, and raises \<^verbatim>\<open>ValueError\<close> when
  it has fewer; crossover returns two children when the first parent has at least 2
  entries, and also when no crossover is drawn, and raises \<^verbatim>\<open>ValueError\<close> when a
  crossover is drawn for a shorter first parent; mutation never raises and returns the
  list of entries it was given.
\<close>

theorem operators_total_when_large_enough:
  "(tournament_size \<le> length populasi
      \<longrightarrow> (\<exists>best st'. tournament_selection populasi st = Inr (best, st')
                      \<and> best \<in> set populasi))
   \<and> (length populasi < tournament_size
        \<longrightarrow> tournament_selection populasi st = Inl SampleValueError)
   \<and> (2 \<le> length parent1 \<or> crossover_rate P < fst (random_random (rng st))
        \<longrightarrow> (\<exists>children st'. crossover P parent1 parent2 st = Inr (children, st')))
   \<and> (length parent1 < 2 \<and> fst (random_random (rng st)) \<le> crossover_rate P
        \<longrightarrow> crossover P parent1 parent2 st = Inl RandrangeValueError)
   \<and> (\<exists>st'. mutate P individu st = Inr (individu, st'))"
proof -
  have "tournament_size \<le> length populasi
      \<longrightarrow> (\<exists>best st'. tournament_selection populasi st = Inr (best, st')
                      \<and> best \<in> set populasi)"
    using tournament_selection_total [of populasi st] by blast
  moreover have "2 \<le> length parent1 \<or> crossover_rate P < fst (random_random (rng st))
        \<longrightarrow> (\<exists>children st'. crossover P parent1 parent2 st = Inr (children, st'))"
  proof (cases "crossover_rate P < fst (random_random (rng st))")
    case True
    from crossover_skipped [OF this] show ?thesis by blast
  next
    case False
    then have "fst (random_random (rng st)) \<le> crossover_rate P" by simp
    from crossover_performed [OF this] False show ?thesis by blast
  qed
  moreover have "length parent1 < 2 \<and> fst (random_random (rng st)) \<le> crossover_rate P
        \<longrightarrow> crossover P parent1 parent2 st = Inl RandrangeValueError"
    using crossover_short [of st P parent1 parent2] by blast
  ultimately show ?thesis
    using tournament_selection_small [of populasi st] mutate_returns_input [of P individu st]
    by blast
qed

theorem operators_total_when_large_enough_witness:
  "(\<exists>best st'. tournament_selection [[0], [1], [2], [3], [0, 1]] ex_population = Inr (best, st')
                \<and> best \<in> set [[0], [1], [2], [3], [0, 1]])
   \<and> tournament_selection [[0], [1], [2]] ex_population = Inl SampleValueError
   \<and> (\<exists>children st'. crossover (ex_ga 5 1 1 0.1 0.1) [0, 1] [2, 3 :: nat] ex_population
                         = Inr (children, st'))
   \<and> crossover (ex_ga 5 1 1 0.1 0.1) [0] [2, 3 :: nat] ex_population
       = Inl RandrangeValueError
   \<and> (\<exists>st'. mutate (ex_ga 5 1 1 0.1 0.1) [0, 1] ex_population = Inr ([0, 1], st'))"
proof -
  have drawn: "fst (random_random (rng ex_population)) \<le> crossover_rate (ex_ga 5 1 1 0.1 0.1)"
    by (simp add: random_random_def ex_population_def init_state_def ex_ga_def)
  from drawn operators_total_when_large_enough
    [of "[[0], [1], [2], [3], [0, 1]]" ex_population "[0, 1 :: nat]" "ex_ga 5 1 1 0.1 0.1"
        "[2, 3 :: nat]" "[0, 1]"]
    operators_total_when_large_enough
    [of "[[0], [1], [2]]" ex_population "[0 :: nat]" "ex_ga 5 1 1 0.1 0.1"
        "[2, 3 :: nat]" "[0, 1]"]
  show ?thesis by (simp add: tournament_size_def)
qed

text \<open>
  Claim C7, as stated: in every generation the number of elites carried into the next
  one is \<open>max(2, round(elitism_rate \<times> population_size))\<close>. This fails on the code: a run
  with a population of one generates the individual \<open>[0]\<close>, its first generation
  completes, and one elite is carried where the claim has 2.
\<close>

theorem single_elite_counterexample:
  "init_population (ex_ga 1 3 0.8 0.1 0.1) 1 (init_state zeros) = Inr ([[0]], ex_generated)
   \<and> generation (ex_ga 1 3 0.8 0.1 0.1) 0 [[0]] ex_generated
       = Inr ([[0]], ex_first_generation)
   \<and> length (select_elites (ex_ga 1 3 0.8 0.1 0.1) (heap ex_generated) [[0]]) = 1
   \<and> spec_num_elites (ex_ga 1 3 0.8 0.1 0.1) = 2"
  using ex_init_population ex_generation_one ex_elites_one num_elites_examples by simp

text \<open>
  Claim C7, amended: in every generation that completes, the elites are the first
  \<open>max(2, int(population_size \<times> elitism_rate))\<close> individuals of the population sorted by
  ascending fitness, and all of them when the population is smaller (a population of one
  carries one elite); the product is the float product and \<^verbatim>\<open>int\<close> truncates it towards
  zero; no other individual has a lower fitness than an elite; and the next population
  begins with the elites, as far as \<^verbatim>\<open>ukuran_populasi\<close> leaves room for them. The fitness
  is the one on the heap at the start of the generation.
\<close>

theorem elites_carried:
  assumes "generation P gen populasi st = Inr (populasi', st')"
  shows "num_elites P = max 2 (py_int (int_times_float (ukuran_populasi P) (elitism_rate P)))
         \<and> select_elites P (heap st) populasi
             = take (nat (num_elites P)) (sort_key (fitness_on (heap st)) populasi)
         \<and> length (select_elites P (heap st) populasi)
             = min (nat (num_elites P)) (length populasi)
         \<and> (\<forall>e \<in> set (select_elites P (heap st) populasi).
             \<forall>x \<in> set (drop (nat (num_elites P)) (sort_key (fitness_on (heap st)) populasi)).
               fitness_on (heap st) e \<le> fitness_on (heap st) x)
         \<and> take (min (length (select_elites P (heap st) populasi)) (ukuran_populasi P)) populasi'
             = take (min (length (select_elites P (heap st) populasi)) (ukuran_populasi P))
                 (select_elites P (heap st) populasi)"
proof -
  let ?elites = "select_elites P (heap st) populasi"
  from generation_parts [OF assms] obtain st1 new_populasi st2 where
    br: "breed P populasi ?elites st1 = Inr (new_populasi, st2)"
    and pop: "populasi' = take (ukuran_populasi P) new_populasi"
    by blast
  from breed_result [OF br] obtain more where more: "new_populasi = ?elites @ more" by blast
  have low: "\<forall>e \<in> set ?elites.
             \<forall>x \<in> set (drop (nat (num_elites P)) (sort_key (fitness_on (heap st)) populasi)).
               fitness_on (heap st) e \<le> fitness_on (heap st) x"
    using sorted_take_drop_le [of "fitness_on (heap st)" "sort_key (fitness_on (heap st)) populasi"]
    by (auto simp: select_elites_def)
  have carried: "take (min (length ?elites) (ukuran_populasi P)) populasi'
      = take (min (length ?elites) (ukuran_populasi P)) ?elites"
    by (simp add: pop more min_def)
  from low carried show ?thesis
    by (simp add: num_elites_def select_elites_def)
qed

theorem elites_carried_witness:
  "generation (ex_ga 1 3 0.8 0.1 0.1) 0 [[0]] ex_generated = Inr ([[0]], ex_first_generation)
   \<and> num_elites (ex_ga 1 3 0.8 0.1 0.1) = 2
   \<and> select_elites (ex_ga 1 3 0.8 0.1 0.1) (heap ex_generated) [[0]] = [[0]]
   \<and> length (select_elites (ex_ga 1 3 0.8 0.1 0.1) (heap ex_generated) [[0]])
       = min (nat (num_elites (ex_ga 1 3 0.8 0.1 0.1))) (length [[0 :: nat]])
   \<and> take 1 [[0 :: nat]]
       = take 1 (select_elites (ex_ga 1 3 0.8 0.1 0.1) (heap ex_generated) [[0]])"
  using elites_carried [OF ex_generation_one] ex_generation_one ex_elites_one
    num_elites_examples
  by (simp add: ex_ga_def)


subsection \<open>The neighbourhood and the search step\<close>






lemma length_swap_ruang [simp]: "length (swap_ruang h a b) = length h"
  by (simp add: swap_ruang_def Let_def)

lemma length_swap_waktu [simp]: "length (swap_waktu h a b) = length h"
  by (simp add: swap_waktu_def Let_def)

lemma length_swap_dosen [simp]: "length (swap_dosen h a b) = length h"
  by (simp add: swap_dosen_def Let_def)

lemma extends_refl: "extends s st st"
  by (simp add: extends_def same_control_def)

lemma extends_nth:
  "extends s st st' \<Longrightarrow> k < length (lists st) \<Longrightarrow> lists st' ! k = lists st ! k"
  by (auto simp: extends_def nth_append)

lemma extends_length: "extends s st st' \<Longrightarrow> length (lists st) \<le> length (lists st')"
  by (auto simp: extends_def)

lemma extends_trans:
  assumes "s < length (lists st)" "extends s st st1" "extends s st1 st2"
  shows "extends s st st2"
proof -
  from assms(2) obtain e1 where e1: "lists st1 = lists st @ e1" "set e1 \<subseteq> {lists st ! s}"
    and c1: "same_control st st1" by (auto simp: extends_def)
  from assms(3) obtain e2 where e2: "lists st2 = lists st1 @ e2" "set e2 \<subseteq> {lists st1 ! s}"
    and c2: "same_control st1 st2" by (auto simp: extends_def)
  from assms(1) e1 have "lists st1 ! s = lists st ! s" by (simp add: nth_append)
  with e1 e2 have "lists st2 = lists st @ (e1 @ e2)" "set (e1 @ e2) \<subseteq> {lists st ! s}"
    by auto
  moreover from c1 c2 have "same_control st st2" by (simp add: same_control_def)
  ultimately show ?thesis unfolding extends_def by blast
qed

lemma swap_neighbors_result:
  assumes "s < length (lists st)"
  shows "extends s st (snd (swap_neighbors s ij st))"
    and "copies_of s (length (lists st)) st (fst (swap_neighbors s ij st)) (snd (swap_neighbors s ij st))"
    and "length (fst (swap_neighbors s ij st)) = 3"
  using assms
  by (simp_all add: swap_neighbors_def copy_list_def Let_def split_def nth_append
        same_control_def extends_def copies_of_def)

lemma swap_loop_result:
  assumes "s < length (lists st)" "lo \<le> length (lists st)" "copies_of s lo st nbs st"
  shows "extends s st (snd (swap_loop s ps nbs st))
         \<and> copies_of s lo st (fst (swap_loop s ps nbs st)) (snd (swap_loop s ps nbs st))
         \<and> length (fst (swap_loop s ps nbs st)) = length nbs + 3 * length ps"
  using assms
proof (induction ps arbitrary: nbs st)
  case Nil
  then show ?case by (simp add: extends_refl)
next
  case (Cons ij ps)
  obtain new st1 where sn: "swap_neighbors s ij st = (new, st1)"
    by (cases "swap_neighbors s ij st")
  from swap_neighbors_result [OF Cons.prems(1), of ij] sn
  have e1: "extends s st st1" and n1: "copies_of s (length (lists st)) st new st1"
    and l1: "length new = 3"
    by simp_all
  from e1 Cons.prems(1) have s1: "s < length (lists st1)" and at: "lists st1 ! s = lists st ! s"
    using extends_length [OF e1] extends_nth [OF e1] by auto
  from Cons.prems(2) extends_length [OF e1] have lo1: "lo \<le> length (lists st1)" by simp
  have acc: "copies_of s lo st1 (nbs @ new) st1"
    using Cons.prems(2,3) n1 at extends_nth [OF e1] extends_length [OF e1]
    by (fastforce simp: copies_of_def)
  from Cons.IH [OF s1 lo1 acc] sn
  have ih: "extends s st1 (snd (swap_loop s (ij # ps) nbs st))"
    "copies_of s lo st1 (fst (swap_loop s (ij # ps) nbs st)) (snd (swap_loop s (ij # ps) nbs st))"
    "length (fst (swap_loop s (ij # ps) nbs st)) = length (nbs @ new) + 3 * length ps"
    by simp_all
  from extends_trans [OF Cons.prems(1) e1 ih(1)] ih(2,3) at l1
  show ?case by (simp add: copies_of_def)
qed

lemma randint_jitter: "\<exists>d g'. random_randint (- 30) 30 g = Inr (d, g') \<and> - 30 \<le> d \<and> d \<le> 30"
proof -
  have "draw_head g mod 61 < 61" by simp
  then show ?thesis by (simp add: random_randint_def)
qed

lemma jitter_neighbor_result:
  assumes "s < length (lists st)"
  shows "\<exists>n st'. jitter_neighbor s i st = Inr (n, st') \<and> extends s st st'
           \<and> copies_of s (length (lists st)) st [n] st'"
proof -
  obtain d g' where "random_randint (- 30) 30 (ts_rng st) = Inr (d, g')"
    using randint_jitter by blast
  with assms show ?thesis
    by (simp add: jitter_neighbor_def copy_list_def Let_def extends_def same_control_def
          copies_of_def nth_append)
qed

lemma jitter_loop_result:
  assumes "s < length (lists st)" "lo \<le> length (lists st)" "copies_of s lo st nbs st"
  shows "\<exists>nbs' st'. jitter_loop s is nbs st = Inr (nbs', st') \<and> extends s st st'
           \<and> copies_of s lo st nbs' st' \<and> length nbs' = length nbs + length is"
  using assms
proof (induction "is" arbitrary: nbs st)
  case Nil
  then show ?case by (simp add: extends_refl)
next
  case (Cons i rest)
  from jitter_neighbor_result [OF Cons.prems(1), of i]
  obtain n st1 where jn: "jitter_neighbor s i st = Inr (n, st1)" and e1: "extends s st st1"
    and n1: "copies_of s (length (lists st)) st [n] st1"
    by blast
  from e1 Cons.prems(1) have s1: "s < length (lists st1)" and at: "lists st1 ! s = lists st ! s"
    using extends_length [OF e1] extends_nth [OF e1] by auto
  from Cons.prems(2) extends_length [OF e1] have lo1: "lo \<le> length (lists st1)" by simp
  have acc: "copies_of s lo st1 (nbs @ [n]) st1"
    using Cons.prems(2,3) n1 at extends_nth [OF e1] extends_length [OF e1]
    by (fastforce simp: copies_of_def)
  from Cons.IH [OF s1 lo1 acc]
  obtain nbs' st' where jl: "jitter_loop s rest (nbs @ [n]) st1 = Inr (nbs', st')"
    and e2: "extends s st1 st'" and c2: "copies_of s lo st1 nbs' st'"
    and l2: "length nbs' = length (nbs @ [n]) + length rest"
    by blast
  from extends_trans [OF Cons.prems(1) e1 e2] jn jl c2 l2 at
  show ?case by (simp add: copies_of_def)
qed

lemma get_neighbors_result:
  assumes "s < length (lists st)"
  shows "\<exists>nbs st'. get_neighbors s st = Inr (nbs, st') \<and> extends s st st'
           \<and> copies_of s (length (lists st)) st nbs st'
           \<and> length nbs = 3 * length (index_pairs (length (lists st ! s))) + length (lists st ! s)"
proof -
  let ?n = "length (lists st ! s)"
  let ?r = "swap_loop s (index_pairs ?n) [] st"
  have c0: "copies_of s (length (lists st)) st [] st" by (simp add: copies_of_def)
  from swap_loop_result [OF assms _ c0, of "index_pairs ?n"]
  have e1: "extends s st (snd ?r)" and c1: "copies_of s (length (lists st)) st (fst ?r) (snd ?r)"
    and l1: "length (fst ?r) = 3 * length (index_pairs ?n)"
    by simp_all
  from e1 assms have s1: "s < length (lists (snd ?r))" and at: "lists (snd ?r) ! s = lists st ! s"
    using extends_length [OF e1] extends_nth [OF e1] by auto
  have lo1: "length (lists st) \<le> length (lists (snd ?r))" by (rule extends_length [OF e1])
  from c1 at have c1': "copies_of s (length (lists st)) (snd ?r) (fst ?r) (snd ?r)"
    by (simp add: copies_of_def)
  from jitter_loop_result [OF s1 lo1 c1', of "[0 ..< ?n]"]
  obtain nbs' st' where jl: "jitter_loop s [0 ..< ?n] (fst ?r) (snd ?r) = Inr (nbs', st')"
    and e2: "extends s (snd ?r) st'" and c2: "copies_of s (length (lists st)) (snd ?r) nbs' st'"
    and l2: "length nbs' = length (fst ?r) + length [0 ..< ?n]"
    by blast
  have "get_neighbors s st = Inr (nbs', st')"
    using jl by (simp add: get_neighbors_def Let_def split_def)
  moreover have "extends s st st'" by (rule extends_trans [OF assms e1 e2])
  moreover from c2 at have "copies_of s (length (lists st)) st nbs' st'" by (simp add: copies_of_def)
  moreover from l1 l2 have "length nbs' = 3 * length (index_pairs ?n) + ?n" by simp
  ultimately show ?thesis by blast
qed




lemma scan_neighbors_sound:
  assumes "scan_ok P st seen best"
  shows "scan_ok P st (seen @ nbs) (scan_neighbors P st nbs best)"
  using assms
proof (induction nbs arbitrary: seen best)
  case Nil
  then show ?case by simp
next
  case (Cons m nbs)
  let ?f = "objective_on P st m"
  show ?case
  proof (cases "aspiration_criteria P st ?f")
    case True
    then show ?thesis by (simp add: scan_ok_def Let_def)
  next
    case False
    let ?best1 = "if \<not> move_in_tabu st (current_solution st, m)
                  then (if below ?f best then Some (m, ?f) else best) else best"
    have "scan_ok P st (seen @ [m]) ?best1"
      using Cons.prems False
      by (auto simp: scan_ok_def below_def split: option.splits)
    from Cons.IH [OF this] False show ?thesis by (simp add: Let_def)
  qed
qed

lemma scan_neighbors_ok: "scan_ok P st nbs (scan_neighbors P st nbs None)"
  using scan_neighbors_sound [of P st "[]" None nbs] by (simp add: scan_ok_def)

lemma accept_neighbor_cases:
  assumes "accept_neighbor P st nbs = Inr ((n, f), diversified, st')"
  shows "n \<in> set nbs \<and> f = objective_on P st n
         \<and> (if diversified
             then list_all (\<lambda>m. move_in_tabu st (current_solution st, m)
                              \<and> \<not> aspiration_criteria P st (objective_on P st m)) nbs
             else \<not> move_in_tabu st (current_solution st, n) \<or> aspiration_criteria P st f)"
proof (cases "scan_neighbors P st nbs None")
  case None
  with scan_neighbors_ok [of P st nbs]
  have all: "list_all (\<lambda>m. move_in_tabu st (current_solution st, m)
                              \<and> \<not> aspiration_criteria P st (objective_on P st m)) nbs"
    by (simp add: scan_ok_def)
  from assms None have "nbs \<noteq> []" "n = nbs ! (draw_head (ts_rng st) mod length nbs)" "diversified"
    "f = objective_on P st n"
    by (auto simp: accept_neighbor_def random_choice_def split: if_splits)
  with all show ?thesis by simp
next
  case (Some b)
  with assms have "b = (n, f)" "\<not> diversified"
    by (auto simp: accept_neighbor_def)
  with Some scan_neighbors_ok [of P st nbs] show ?thesis
    by (auto simp: scan_ok_def)
qed

lemma accept_neighbor_state:
  assumes "accept_neighbor P st nbs = Inr (best, diversified, st')"
  shows "lists st' = lists st \<and> ents st' = ents st \<and> tabu_list st' = tabu_list st
         \<and> current_solution st' = current_solution st \<and> ts_best_fitness st' = ts_best_fitness st
         \<and> m_iterations st' = m_iterations st"
  using assms
  by (auto simp: accept_neighbor_def random_choice_def split: option.splits if_splits)

lemma accept_neighbor_total:
  assumes "nbs \<noteq> []"
  shows "\<exists>r. accept_neighbor P st nbs = Inr r"
  using assms
  by (auto simp: accept_neighbor_def random_choice_def split: option.splits)

lemma search_iteration_parts:
  assumes "search_iteration P i st = Inr st'"
  shows "\<exists>nbs mid f diversified st2.
           get_neighbors (current_solution st) st = Inr (nbs, mid)
           \<and> accept_neighbor P mid nbs = Inr ((current_solution st', f), diversified, st2)
           \<and> lists st' = lists st2
           \<and> tabu_list st' =
               (let appended = tabu_list st2 @ [(current_solution st', current_solution st')]
                in if length appended > tabu_size P then tl appended else appended)
           \<and> m_iterations st' = m_iterations st2 @ [i]
           \<and> ts_best_fitness st' = (if f < ts_best_fitness st2 then f else ts_best_fitness st2)"
proof -
  from assms obtain nbs mid where gn: "get_neighbors (current_solution st) st = Inr (nbs, mid)"
    by (auto simp: search_iteration_def split: sum.splits)
  from assms gn obtain n f diversified st2 where
    acc: "accept_neighbor P mid nbs = Inr ((n, f), diversified, st2)"
    by (auto simp: search_iteration_def split: sum.splits)
  from assms gn acc have st': "st' = record_iteration i f (move_to P n (update_best_ts P (n, f) st2))"
    by (simp add: search_iteration_def)
  have cur: "current_solution st' = n"
    by (simp add: st' record_iteration_def move_to_def update_tabu_list_def update_best_ts_def Let_def)
  have ls: "lists st' = lists st2"
    by (simp add: st' record_iteration_def move_to_def update_tabu_list_def update_best_ts_def Let_def)
  have tab: "tabu_list st' =
      (let appended = tabu_list st2 @ [(n, n)]
       in if length appended > tabu_size P then tl appended else appended)"
    by (simp add: st' record_iteration_def move_to_def update_tabu_list_def update_best_ts_def Let_def)
  have its: "m_iterations st' = m_iterations st2 @ [i]"
    by (simp add: st' record_iteration_def move_to_def update_tabu_list_def update_best_ts_def Let_def)
  have bf: "ts_best_fitness st' = (if f < ts_best_fitness st2 then f else ts_best_fitness st2)"
    by (simp add: st' record_iteration_def move_to_def update_tabu_list_def update_best_ts_def Let_def)
  from gn acc cur ls tab its bf show ?thesis by blast
qed

lemma search_iteration_effect:
  assumes "search_iteration P i st = Inr st'" "valid_ts st"
  shows "valid_ts st'
         \<and> length (lists st) \<le> current_solution st'
         \<and> lists st' ! current_solution st' = lists st ! current_solution st
         \<and> tabu_list st' =
             (let appended = tabu_list st @ [(current_solution st', current_solution st')]
              in if length appended > tabu_size P then tl appended else appended)
         \<and> m_iterations st' = m_iterations st @ [i]
         \<and> ((\<forall>S. 0 < objective P S) \<longrightarrow> 0 < ts_best_fitness st \<longrightarrow> 0 < ts_best_fitness st')"
proof -
  let ?s = "current_solution st"
  from assms(2) have v: "?s < length (lists st)" by (simp add: valid_ts_def)
  from search_iteration_parts [OF assms(1)] obtain nbs mid f diversified st2 where
    gn: "get_neighbors ?s st = Inr (nbs, mid)"
    and acc: "accept_neighbor P mid nbs = Inr ((current_solution st', f), diversified, st2)"
    and ls: "lists st' = lists st2"
    and tab: "tabu_list st' =
               (let appended = tabu_list st2 @ [(current_solution st', current_solution st')]
                in if length appended > tabu_size P then tl appended else appended)"
    and its: "m_iterations st' = m_iterations st2 @ [i]"
    and bf: "ts_best_fitness st' = (if f < ts_best_fitness st2 then f else ts_best_fitness st2)"
    by blast
  from get_neighbors_result [OF v] gn have ext: "extends ?s st mid"
    and cp: "copies_of ?s (length (lists st)) st nbs mid"
    by auto
  from accept_neighbor_cases [OF acc] have mem: "current_solution st' \<in> set nbs"
    and f: "f = objective_on P mid (current_solution st')"
    by simp_all
  from accept_neighbor_state [OF acc] have st2: "lists st2 = lists mid" "tabu_list st2 = tabu_list mid"
    "ts_best_fitness st2 = ts_best_fitness mid" "m_iterations st2 = m_iterations mid"
    by simp_all
  from ext have ctl: "tabu_list mid = tabu_list st" "ts_best_fitness mid = ts_best_fitness st"
    "m_iterations mid = m_iterations st"
    by (simp_all add: extends_def same_control_def)
  from cp mem have n: "length (lists st) \<le> current_solution st'"
    "current_solution st' < length (lists mid)"
    "lists mid ! current_solution st' = lists st ! ?s"
    by (auto simp: copies_of_def)
  have pos: "(\<forall>S. 0 < objective P S) \<longrightarrow> 0 < ts_best_fitness st \<longrightarrow> 0 < ts_best_fitness st'"
    by (simp add: bf f st2 ctl objective_on_def)
  from n ls st2 tab its ctl pos show ?thesis
    by (simp add: valid_ts_def)
qed

lemma search_iteration_total:
  assumes "valid_ts st" "lists st ! current_solution st \<noteq> []"
  shows "\<exists>st'. search_iteration P i st = Inr st'"
proof -
  from assms(1) have v: "current_solution st < length (lists st)" by (simp add: valid_ts_def)
  from get_neighbors_result [OF v] obtain nbs mid where
    gn: "get_neighbors (current_solution st) st = Inr (nbs, mid)"
    and len: "length nbs = 3 * length (index_pairs (length (lists st ! current_solution st)))
                + length (lists st ! current_solution st)"
    by blast
  from len assms(2) have "nbs \<noteq> []" by auto
  from accept_neighbor_total [OF this, of P mid] obtain r where "accept_neighbor P mid nbs = Inr r"
    by blast
  with gn show ?thesis by (cases r) (auto simp: search_iteration_def)
qed

lemma search_loop_to_budget:
  assumes "search_loop P its st = Inr st'" "valid_ts st" "\<forall>S. 0 < objective P S"
    "0 < ts_best_fitness st"
  shows "m_iterations st' = m_iterations st @ its \<and> 0 < ts_best_fitness st'"
  using assms
proof (induction its arbitrary: st)
  case Nil
  then show ?case by simp
next
  case (Cons i its)
  from Cons.prems(1) obtain st1 where it: "search_iteration P i st = Inr st1"
    by (auto split: sum.splits)
  from search_iteration_effect [OF it Cons.prems(2)] Cons.prems(3,4)
  have v1: "valid_ts st1" and m1: "m_iterations st1 = m_iterations st @ [i]"
    and p1: "0 < ts_best_fitness st1"
    by simp_all
  from p1 have "\<not> ts_stop_condition st1" by (simp add: ts_stop_condition_def)
  with Cons.prems(1) it have "search_loop P its st1 = Inr st'" by simp
  from Cons.IH [OF this v1 Cons.prems(3) p1] m1 show ?case by simp
qed

subsection \<open>Evaluation of the tabu search example\<close>











lemma ex_init_ts: "init_ts ex_ts [ex_entry ''Senin'' 480 600 ''A'' ''301'' ''1''] [0] zeros = ex_ts_0"
  by (simp add: init_ts_def ex_ts_0_def ex_ts_state_def ex_ts_def calculate_fitness_single deref_def)

lemmas ts_eval = get_neighbors_def index_pairs_1 jitter_neighbor_def copy_list_def
  random_randint_def ex_ts_state_def ex_entry_def Let_def

lemma ex_neighbors_0: "get_neighbors 0 ex_ts_0 = Inr ([1], ex_ts_mid)"
  by (simp add: ts_eval ex_ts_0_def ex_ts_mid_def)

lemma ex_neighbors_1: "get_neighbors 1 ex_ts_1 = Inr ([2], ex_ts_mid2)"
  by (simp add: ts_eval ex_ts_1_def ex_ts_mid2_def)

lemma ex_objective: "objective_on ex_ts (ex_ts_state shift ls cur tabu its fs sizes divs) n = 
   calculate_fitness (deref [ex_entry ''Senin'' (480 - shift) (600 - shift) ''A'' ''301'' ''1''] (ls ! n))"
  by (simp add: objective_on_def ex_ts_def ex_ts_state_def)

lemma ex_accept_0: "accept_neighbor ex_ts ex_ts_mid [1] = Inr ((1, 1), False, ex_ts_mid)"
  by (simp add: accept_neighbor_def ex_ts_mid_def ex_objective deref_def calculate_fitness_single
      move_in_tabu_def below_def aspiration_criteria_def, simp add: ex_ts_state_def ex_ts_def)

lemma ex_tabu_1: "move_in_tabu ex_ts_mid2 (current_solution ex_ts_mid2, 2)
                  \<and> \<not> aspiration_criteria ex_ts ex_ts_mid2 (objective_on ex_ts ex_ts_mid2 2)"
  by (simp add: ex_ts_mid2_def ex_objective deref_def calculate_fitness_single,
      simp add: move_in_tabu_def move_eq_def solution_eq_def entry_eq_def aspiration_criteria_def
        ex_ts_state_def ex_ts_def)

lemma ex_accept_1:
  "accept_neighbor ex_ts ex_ts_mid2 [2]
     = Inr ((2, 1), True, ex_ts_mid2\<lparr>diversification_count := 1\<rparr>)"
  using ex_tabu_1
  by (simp add: accept_neighbor_def random_choice_def, simp add: ex_ts_mid2_def ex_objective deref_def calculate_fitness_single,
       simp add: ex_ts_state_def)

lemmas ts_finish = update_best_ts_def move_to_def update_tabu_list_def record_iteration_def

lemma ex_iteration_0: "search_iteration ex_ts 0 ex_ts_0 = Inr ex_ts_1"
proof -
  have cur: "current_solution ex_ts_0 = 0"
    by (simp add: ex_ts_0_def ex_ts_state_def)
  have fin: "record_iteration 0 1 (move_to ex_ts 1 (update_best_ts ex_ts (1, 1) (ex_ts_mid)))
               = ex_ts_1"
    by (simp add: ex_ts_state_def ex_ts_mid_def ex_ts_1_def ts_finish ex_ts_def)
  show ?thesis
    by (simp only: search_iteration_def cur ex_neighbors_0 ex_accept_0 sum.case prod.case
          fst_conv snd_conv fin)
qed

lemma ex_iteration_1: "search_iteration ex_ts 1 ex_ts_1 = Inr ex_ts_2"
proof -
  have cur: "current_solution ex_ts_1 = 1"
    by (simp add: ex_ts_1_def ex_ts_state_def)
  have fin: "record_iteration 1 1 (move_to ex_ts 2 (update_best_ts ex_ts (2, 1) (ex_ts_mid2\<lparr>diversification_count := 1\<rparr>)))
               = ex_ts_2"
    by (simp add: ex_ts_state_def ex_ts_mid2_def ex_ts_2_def ts_finish ex_ts_def)
  show ?thesis
    by (simp only: search_iteration_def cur ex_neighbors_1 ex_accept_1 sum.case prod.case
          fst_conv snd_conv fin)
qed

lemma ex_neighbors_2: "get_neighbors 2 ex_ts_2 = Inr ([3], ex_ts_mid3)"
  by (simp add: ts_eval ex_ts_2_def ex_ts_mid3_def)

lemma ex_tabu_2: "move_in_tabu ex_ts_mid3 (current_solution ex_ts_mid3, 3)
                  \<and> \<not> aspiration_criteria ex_ts ex_ts_mid3 (objective_on ex_ts ex_ts_mid3 3)"
  by (simp add: ex_ts_mid3_def ex_objective deref_def calculate_fitness_single,
      simp add: move_in_tabu_def move_eq_def solution_eq_def entry_eq_def aspiration_criteria_def
        ex_ts_state_def ex_ts_def)

lemma ex_accept_2:
  "accept_neighbor ex_ts ex_ts_mid3 [3]
     = Inr ((3, 1), True, ex_ts_mid3\<lparr>diversification_count := 2\<rparr>)"
  using ex_tabu_2
  by (simp add: accept_neighbor_def random_choice_def,
      simp add: ex_ts_mid3_def ex_objective deref_def calculate_fitness_single,
      simp add: ex_ts_state_def)

lemma ex_iteration_2: "search_iteration ex_ts 2 ex_ts_2 = Inr ex_ts_3"
proof -
  have cur: "current_solution ex_ts_2 = 2"
    by (simp add: ex_ts_2_def ex_ts_state_def)
  have fin: "record_iteration 2 1 (move_to ex_ts 3 (update_best_ts ex_ts (3, 1) (ex_ts_mid3\<lparr>diversification_count := 2\<rparr>)))
               = ex_ts_3"
    by (simp add: ex_ts_state_def ex_ts_mid3_def ex_ts_3_def ts_finish ex_ts_def)
  show ?thesis
    by (simp only: search_iteration_def cur ex_neighbors_2 ex_accept_2 sum.case prod.case
          fst_conv snd_conv fin)
qed

lemma ex_no_stop:
  "\<not> ts_stop_condition ex_ts_1" "\<not> ts_stop_condition ex_ts_2" "\<not> ts_stop_condition ex_ts_3"
  by (simp_all add: ts_stop_condition_def ex_ts_1_def ex_ts_2_def ex_ts_3_def ex_ts_state_def)

lemma ex_search: "search ex_ts ex_ts_0 = Inr ex_ts_3"
proof -
  have "[0 ..< max_iter ex_ts] = [0, 1, 2]"
    by (simp add: ex_ts_def upt_rec)
  then show ?thesis
    by (simp only: search_def search_loop.simps ex_iteration_0 ex_iteration_1 ex_iteration_2
          ex_no_stop sum.case if_False)
qed



subsection \<open>Runs of the two engines\<close>

lemma generate_entries_kept:
  "generate_entries cs acc st = Inr (sol, st') \<Longrightarrow> ga_kept st st'"
proof (induction cs arbitrary: acc st)
  case Nil
  then show ?case by (simp add: ga_kept_refl)
next
  case (Cons c cs)
  from Cons.prems obtain j g where
    "generate_entries cs (acc @ [length (heap st)]) (st\<lparr>heap := heap st @ [j], rng := g\<rparr>)
       = Inr (sol, st')"
    by (auto split: sum.splits)
  from Cons.IH [OF this] show ?case by (simp add: ga_kept_def)
qed

lemma init_population_kept:
  "init_population P n st = Inr (populasi, st') \<Longrightarrow> ga_kept st st'"
proof (induction n arbitrary: st populasi)
  case 0
  then show ?case by (simp add: ga_kept_refl)
next
  case (Suc n)
  from Suc.prems obtain ind st1 rest where
    g: "generate_random_jadwal P st = Inr (ind, st1)"
    and r: "init_population P n st1 = Inr (rest, st')"
    by (auto split: sum.splits)
  from g have "ga_kept st st1"
    by (auto simp: generate_random_jadwal_def split: sum.splits dest: generate_entries_kept)
  with Suc.IH [OF r] show ?case by (rule ga_kept_trans [rotated])
qed

lemma run_to_budget:
  assumes "run P st = Inr st'" "best_pos st"
  shows "m_generations st' = m_generations st @ [0 ..< generasi P] \<and> best_pos st'"
proof -
  from assms(1) obtain populasi st1 where
    ip: "init_population P (ukuran_populasi P) st = Inr (populasi, st1)"
    and rl: "run_loop P [0 ..< generasi P] populasi st1 = Inr st'"
    by (auto simp: run_def split: sum.splits)
  from init_population_kept [OF ip] assms(2)
  have "best_pos st1" "m_generations st1 = m_generations st"
    by (simp_all add: ga_kept_def best_pos_def)
  with run_loop_to_budget [OF rl] show ?thesis by simp
qed

lemma search_to_budget:
  assumes "search P st = Inr st'" "valid_ts st" "\<forall>S. 0 < objective P S"
    "0 < ts_best_fitness st"
  shows "m_iterations st' = m_iterations st @ [0 ..< max_iter P] \<and> 0 < ts_best_fitness st'"
  using assms search_loop_to_budget [of P "[0 ..< max_iter P]" st st']
  by (simp add: search_def)

text \<open>
  Claim C1: the loop of either engine stops before its budget is spent exactly when a
  conflict-free solution has been found. The code does not do this. The stop tests are
  \<^verbatim>\<open>self.best_fitness <= 0\<close>, and a fitness \<open>1 / (1 + conflicts)\<close> is positive, so the
  loops never stop early (\<open>run_to_budget\<close>, \<open>search_to_budget\<close>). Here the genetic
  engine runs on a catalog of one course with a population of one: the best fitness is
  1, the fitness of no conflict, from the first generation on, and all three generations
  are run. The tabu search starts from a solution of one entry, whose fitness is 1, and
  runs all three iterations.
\<close>

theorem loops_run_to_budget_without_conflicts:
  "(case run (ex_ga 1 3 0.8 0.1 0.1) (init_state zeros) of
      Inl e \<Rightarrow> False
    | Inr st \<Rightarrow> best_fitness st = Some 1 \<and> m_best_fitness st = [1, 1, 1]
                 \<and> m_generations st = [0, 1, 2] \<and> best_solution st = Some [0])
   \<and> generasi (ex_ga 1 3 0.8 0.1 0.1) = 3
   \<and> search ex_ts ex_ts_0 = Inr ex_ts_3
   \<and> objective ex_ts = calculate_fitness \<and> max_iter ex_ts = 3
   \<and> count_conflicts (deref (ents ex_ts_0) (lists ex_ts_0 ! current_solution ex_ts_0)) = 0
   \<and> ts_best_fitness ex_ts_0 = 1 \<and> ts_best_fitness ex_ts_3 = 1
   \<and> m_iterations ex_ts_3 = [0, 1, 2]"
proof -
  have "count_conflicts (deref (ents ex_ts_0) (lists ex_ts_0 ! current_solution ex_ts_0)) = 0"
    by (simp add: ex_ts_0_def ex_ts_state_def deref_def count_conflicts_def inner_loop_def)
  with ex_run_one_code ex_search show ?thesis
    by (simp add: ex_ga_def ex_ts_def ex_ts_0_def ex_ts_3_def ex_ts_state_def)
qed

text \<open>
  Claim C4: every structural transformation deep-copies the solution, so that
  \<^verbatim>\<open>get_neighbors\<close> returns neighbours that share no entry with their input and leaves the
  input's entries unchanged, and \<^verbatim>\<open>mutate\<close> leaves its input unchanged. The code does not
  do this. Both copy the list only (\<^verbatim>\<open>solution.copy()\<close>, \<^verbatim>\<open>individu.copy()\<close>) and then
  assign to the attributes of its entries: every neighbour holds the very entries of the
  input (\<open>get_neighbors_result\<close>), and \<^verbatim>\<open>mutate\<close> returns the entries it was given
  (\<open>mutate_returns_input\<close>). Here the neighbour of the one-entry solution is a list of
  the same entry, whose start time went from 480 to 450, and the mutated entry is the
  input's, whose room went from 301 to 305.
\<close>

theorem transformations_change_their_input:
  "get_neighbors (current_solution ex_ts_0) ex_ts_0 = Inr ([1], ex_ts_mid)
   \<and> lists ex_ts_0 ! current_solution ex_ts_0 = [0]
   \<and> lists ex_ts_mid ! 1 = [0]
   \<and> waktu_mulai (ents ex_ts_0 ! 0) = 480
   \<and> waktu_mulai (ents ex_ts_mid ! 0) = 450
   \<and> mutate (ex_ga 1 3 0.8 1 0.1) [0] ex_before_mutation = Inr ([0], ex_after_mutation)
   \<and> ruang (heap ex_before_mutation ! 0) = ''301''
   \<and> ruang (heap ex_after_mutation ! 0) = ''305''"
proof -
  have "current_solution ex_ts_0 = 0"
    by (simp add: ex_ts_0_def ex_ts_state_def)
  with ex_neighbors_0 ex_mutate show ?thesis
    by (simp add: ex_ts_0_def ex_ts_mid_def ex_ts_state_def ex_entry_def
          ex_before_mutation_def ex_after_mutation_def)
qed

text \<open>
  Claim C5: the pair pushed onto the tabu queue at the end of an iteration is (previous
  current solution, accepted neighbour), and the oldest pair is dropped once the queue
  is longer than \<^verbatim>\<open>tabu_size\<close>. The code drops the oldest pair as claimed, but the pair
  it pushes is (accepted neighbour, accepted neighbour): \<^verbatim>\<open>self.current_solution\<close> is
  assigned the accepted neighbour on the line before the tuple is built
  (\<open>search_iteration_effect\<close>, for every iteration). Here the first iteration starts
  from list object 0 and accepts list object 1; the queue then holds \<open>(1, 1)\<close>, not
  \<open>(0, 1)\<close>.
\<close>

theorem tabu_queue_gets_accepted_twice:
  "search_iteration ex_ts 0 ex_ts_0 = Inr ex_ts_1
   \<and> current_solution ex_ts_0 = 0 \<and> tabu_list ex_ts_0 = []
   \<and> current_solution ex_ts_1 = 1 \<and> tabu_list ex_ts_1 = [(1, 1)]
   \<and> tabu_list ex_ts_1 \<noteq> [(current_solution ex_ts_0, current_solution ex_ts_1)]"
  using ex_iteration_0
  by (simp add: ex_ts_0_def ex_ts_1_def ex_ts_state_def)

text \<open>
  Claim C6, as stated: a move that is in the tabu queue is never the accepted move of an
  iteration unless the neighbour meets the aspiration criterion. This fails on the code:
  when the scan accepts no neighbour, the step draws one at random and accepts it, tabu
  or not. Here, in the second iteration of the example, the only move is in the queue,
  the neighbour's fitness 1 is not below \<open>1 \<times> (1 - 0.1)\<close>, and the neighbour is accepted.
\<close>

theorem tabu_move_accepted_counterexample:
  "search_iteration ex_ts 0 ex_ts_0 = Inr ex_ts_1
   \<and> search_iteration ex_ts 1 ex_ts_1 = Inr ex_ts_2
   \<and> get_neighbors (current_solution ex_ts_1) ex_ts_1 = Inr ([2], ex_ts_mid2)
   \<and> current_solution ex_ts_2 = 2
   \<and> move_in_tabu ex_ts_mid2 (current_solution ex_ts_mid2, 2)
   \<and> \<not> aspiration_criteria ex_ts ex_ts_mid2 (objective_on ex_ts ex_ts_mid2 2)"
proof -
  have "current_solution ex_ts_1 = 1" "current_solution ex_ts_2 = 2"
    by (simp_all add: ex_ts_1_def ex_ts_2_def ex_ts_state_def)
  with ex_iteration_0 ex_iteration_1 ex_neighbors_1 ex_tabu_1 show ?thesis
    by simp
qed

text \<open>
  Claim C6, amended: in every iteration the accepted neighbour is one of the neighbours
  of the current solution, and its move is not in the tabu queue, or it meets the
  aspiration criterion (fitness strictly below \<open>best_fitness \<times> (1 - aspiration_threshold)\<close>),
  or the step is a diversification step: every move of the neighbourhood is in the tabu
  queue and no neighbour meets the aspiration criterion. Membership and fitness are those
  of the state after \<^verbatim>\<open>get_neighbors\<close>, in which the scan runs.
\<close>

theorem tabu_move_needs_aspiration_or_diversification:
  assumes "search_iteration P i st = Inr st'"
  shows "\<exists>nbs mid.
           get_neighbors (current_solution st) st = Inr (nbs, mid)
           \<and> current_solution st' \<in> set nbs
           \<and> (\<not> move_in_tabu mid (current_solution mid, current_solution st')
              \<or> aspiration_criteria P mid (objective_on P mid (current_solution st'))
              \<or> list_all (\<lambda>m. move_in_tabu mid (current_solution mid, m)
                              \<and> \<not> aspiration_criteria P mid (objective_on P mid m)) nbs)"
proof -
  from search_iteration_parts [OF assms] obtain nbs mid f diversified st2 where
    gn: "get_neighbors (current_solution st) st = Inr (nbs, mid)"
    and acc: "accept_neighbor P mid nbs = Inr ((current_solution st', f), diversified, st2)"
    by blast
  from accept_neighbor_cases [OF acc] gn show ?thesis
    by (cases diversified) auto
qed

theorem tabu_move_needs_aspiration_or_diversification_witness:
  "get_neighbors (current_solution ex_ts_0) ex_ts_0 = Inr ([1], ex_ts_mid)
   \<and> current_solution ex_ts_1 \<in> set [1]
   \<and> \<not> move_in_tabu ex_ts_mid (current_solution ex_ts_mid, current_solution ex_ts_1)
   \<and> \<not> aspiration_criteria ex_ts ex_ts_mid (objective_on ex_ts ex_ts_mid (current_solution ex_ts_1))
   \<and> get_neighbors (current_solution ex_ts_1) ex_ts_1 = Inr ([2], ex_ts_mid2)
   \<and> current_solution ex_ts_2 \<in> set [2]
   \<and> list_all (\<lambda>m. move_in_tabu ex_ts_mid2 (current_solution ex_ts_mid2, m)
                   \<and> \<not> aspiration_criteria ex_ts ex_ts_mid2 (objective_on ex_ts ex_ts_mid2 m)) [2]"
proof -
  have c: "current_solution ex_ts_0 = 0" "current_solution ex_ts_1 = 1"
    by (simp_all add: ex_ts_0_def ex_ts_1_def ex_ts_state_def)
  from tabu_move_needs_aspiration_or_diversification [OF ex_iteration_1] ex_neighbors_1 c
  have second: "current_solution ex_ts_2 \<in> set [2]
        \<and> (\<not> move_in_tabu ex_ts_mid2 (current_solution ex_ts_mid2, current_solution ex_ts_2)
           \<or> aspiration_criteria ex_ts ex_ts_mid2 (objective_on ex_ts ex_ts_mid2 (current_solution ex_ts_2))
           \<or> list_all (\<lambda>m. move_in_tabu ex_ts_mid2 (current_solution ex_ts_mid2, m)
                   \<and> \<not> aspiration_criteria ex_ts ex_ts_mid2 (objective_on ex_ts ex_ts_mid2 m)) [2])"
    by auto
  with ex_tabu_1 have tabu: "current_solution ex_ts_2 \<in> set [2]
        \<and> list_all (\<lambda>m. move_in_tabu ex_ts_mid2 (current_solution ex_ts_mid2, m)
                   \<and> \<not> aspiration_criteria ex_ts ex_ts_mid2 (objective_on ex_ts ex_ts_mid2 m)) [2]"
    by auto
  from tabu_move_needs_aspiration_or_diversification [OF ex_iteration_0] ex_neighbors_0 c
  have "current_solution ex_ts_1 \<in> set [1]
        \<and> (\<not> move_in_tabu ex_ts_mid (current_solution ex_ts_mid, current_solution ex_ts_1)
           \<or> aspiration_criteria ex_ts ex_ts_mid (objective_on ex_ts ex_ts_mid (current_solution ex_ts_1))
           \<or> list_all (\<lambda>m. move_in_tabu ex_ts_mid (current_solution ex_ts_mid, m)
                   \<and> \<not> aspiration_criteria ex_ts ex_ts_mid (objective_on ex_ts ex_ts_mid m)) [1])"
    by auto
  moreover have "\<not> move_in_tabu ex_ts_mid (current_solution ex_ts_mid, 1)"
    by (simp add: move_in_tabu_def ex_ts_mid_def ex_ts_state_def)
  moreover have "\<not> aspiration_criteria ex_ts ex_ts_mid (objective_on ex_ts ex_ts_mid 1)"
    by (simp add: ex_ts_mid_def ex_objective deref_def calculate_fitness_single,
        simp add: aspiration_criteria_def ex_ts_state_def ex_ts_def)
  ultimately show ?thesis using ex_neighbors_0 ex_neighbors_1 tabu c by simp
qed

end
